theory Spec2Isabelle
  imports Complex_Main
begin

section \<open>City of Syndicates: data model\<close>

text \<open>
  The two tables of \<^verbatim>\<open>main.py\<close>. Integer columns are Python integers (\<open>int\<close>);
  the \<^verbatim>\<open>Float\<close> column \<open>money\<close> is modelled by exact reals (all amounts the
  program adds or subtracts are integers, which binary floating point represents
  exactly below \<open>2^53\<close>); \<open>created_at\<close> is a timestamp supplied by the clock.
  The primary key column \<^verbatim>\<open>id\<close> is called \<open>id_player\<close> and \<open>id_inventory\<close>.
\<close>

record PlayerDB =
  id_player :: int
  username :: string
  password :: string
  money :: real
  energy :: int
  max_energy :: int
  level :: int
  experience :: int
  strength :: int
  agility :: int
  intelligence :: int
  charisma :: int
  wins :: int
  losses :: int
  created_at :: nat

record InventoryDB =
  id_inventory :: int
  player_id :: int
  item_type :: string
  item_id :: string
  equipped :: bool

text \<open>The committed contents of the database: the rows of both tables in insertion order.\<close>

record database =
  players :: "PlayerDB list"
  inventory :: "InventoryDB list"

definition empty_db :: database where
  "empty_db = \<lparr>players = [], inventory = []\<rparr>"

text \<open>An autoincrement primary key: one more than the largest key in the table.\<close>

definition fresh_id :: "int list \<Rightarrow> int" where
  "fresh_id ids = 1 + fold max ids 0"

subsection \<open>Game data\<close>

text \<open>
  A catalog entry; the key \<^verbatim>\<open>"damage"\<close> is present for weapons only and
  \<^verbatim>\<open>"defense"\<close> for armor only, the key \<^verbatim>\<open>"level"\<close> is \<open>level_req\<close>.
\<close>

record item =
  name :: string
  damage :: "int option"
  defense :: "int option"
  price :: int
  level_req :: int

definition WEAPONS :: "string \<rightharpoonup> item" where
  "WEAPONS = map_of
     [(''brass_knuckles'',
         \<lparr>name = ''Brass Knuckles'', damage = Some 5, defense = None, price = 200, level_req = 1\<rparr>),
      (''pistol'',
         \<lparr>name = ''Pistol'', damage = Some 25, defense = None, price = 2000, level_req = 5\<rparr>)]"

definition ARMOR :: "string \<rightharpoonup> item" where
  "ARMOR = map_of
     [(''leather_jacket'',
         \<lparr>name = ''Leather Jacket'', damage = None, defense = Some 5, price = 300, level_req = 1\<rparr>)]"

text \<open>
  An entry of \<^verbatim>\<open>CRIMES\<close>; the keys \<^verbatim>\<open>name\<close>, \<^verbatim>\<open>energy\<close>, \<^verbatim>\<open>reward\<close>,
  \<^verbatim>\<open>exp\<close> and \<^verbatim>\<open>success\<close> carry the prefix \<open>crime_\<close>.
\<close>

record crime_entry =
  crime_name :: string
  crime_energy :: int
  crime_reward :: "int \<times> int"
  crime_exp :: int
  crime_success :: real

text \<open>
  The success probabilities are the floating-point literals \<^verbatim>\<open>0.9\<close> and \<^verbatim>\<open>0.4\<close>, that
  is, the doubles nearest to nine tenths and two fifths: \<open>8106479329266893 / 2^53\<close> and
  \<open>3602879701896397 / 2^53\<close>, both slightly above the decimal fraction.
\<close>

definition CRIMES :: "crime_entry list" where
  "CRIMES =
     [\<lparr>crime_name = ''Pickpocket'', crime_energy = 10, crime_reward = (20, 50),
        crime_exp = 5, crime_success = 8106479329266893 / 2 ^ 53\<rparr>,
      \<lparr>crime_name = ''Bank Heist'', crime_energy = 60, crime_reward = (500, 1000),
        crime_exp = 50, crime_success = 3602879701896397 / 2 ^ 53\<rparr>]"

subsection \<open>Randomness\<close>

text \<open>
  The generator's raw output is an argument of the handler. \<^verbatim>\<open>random.choice\<close> indexes
  the sequence at a number below its length and \<^verbatim>\<open>random.randint(a, b)\<close> adds a
  number below \<open>b - a + 1\<close> to \<open>a\<close>. \<^verbatim>\<open>random.random()\<close> returns a double in
  \<open>[0, 1)\<close>, a multiple of \<open>2^-53\<close>; the roll is that number, and comparing two doubles
  is comparing the reals they denote.
\<close>

definition randbelow :: "nat \<Rightarrow> nat \<Rightarrow> nat" where
  "randbelow n k = k mod n"

definition random_choice :: "'a list \<Rightarrow> nat \<Rightarrow> 'a" where
  "random_choice xs k = xs ! randbelow (length xs) k"

definition random_randint :: "int \<times> int \<Rightarrow> nat \<Rightarrow> int" where
  "random_randint ab k = fst ab + int (randbelow (nat (snd ab - fst ab + 1)) k)"

text \<open>
  The number below \<open>n = b - a + 1\<close> that \<^verbatim>\<open>random.randint(a, b)\<close> draws is distributed
  uniformly over \<open>0, ..., n - 1\<close>: each of these \<open>n\<close> outcomes has probability \<open>1 / n\<close>.
  The probability that the result is \<open>r\<close> is therefore the share of the outcomes that
  give \<open>r\<close>.
\<close>

definition randint_probability :: "int \<times> int \<Rightarrow> int \<Rightarrow> real" where
  "randint_probability ab r =
     (let n = nat (snd ab - fst ab + 1)
      in real (length (filter (\<lambda>j. random_randint ab j = r) [0..<n])) / real n)"

subsection \<open>Responses\<close>

text \<open>
  The exceptions of passlib that the handlers can meet: a secret of more than 4096
  characters, a secret containing a NUL byte, and a stored string that no scheme of the
  context identifies.
\<close>

datatype passlib_error = PasswordSizeError | NullPasswordError | UnknownHashError

text \<open>
  A handler either raises \<^verbatim>\<open>HTTPException\<close> with a status and a detail, or lets an
  exception of passlib escape, which the framework answers with status 500.
\<close>

datatype http_error = HTTPException int string | InternalServerError passlib_error

datatype json = JStr string | JInt int

type_synonym response = "(string \<times> json) list"

type_synonym outcome = "database \<times> (http_error + response)"

subsection \<open>Password hashing\<close>

text \<open>
  \<^verbatim>\<open>pwd_context\<close> is passlib's \<^verbatim>\<open>CryptContext\<close> with the single scheme bcrypt. The
  string it produces is the identifier and cost \<^verbatim>\<open>$2b$12$\<close>, the 22-character salt and
  the checksum of the secret under that salt. The checksum, bcrypt's Blowfish core written
  in the bcrypt alphabet, is the one parameter of the model. Verification identifies the
  stored string by its prefix, cuts the salt out of it, recomputes the checksum and
  compares. Stored strings of a shape this service never writes are modelled no further
  than their identification.
\<close>

record pwd_context =
  digest :: "string \<Rightarrow> string \<Rightarrow> string"

definition validate_secret :: "string \<Rightarrow> passlib_error option" where
  "validate_secret secret =
     (if length secret > 4096 then Some PasswordSizeError
      else if CHR 0x00 \<in> set secret then Some NullPasswordError
      else None)"

definition bcrypt64 :: string where
  "bcrypt64 = ''./ABCDEFGHIJKLMNOPQRSTUVWXYZabcdefghijklmnopqrstuvwxyz0123456789''"

text \<open>
  The salt: 22 characters of the bcrypt alphabet read off a random number below
  \<open>64^22\<close>, lowest base-64 digit first; the four unused bits of the last character are
  cleared.
\<close>

fun digits64 :: "nat \<Rightarrow> nat \<Rightarrow> nat list" where
  "digits64 0 v = []"
| "digits64 (Suc n) v = v mod 64 # digits64 n (v div 64)"

definition generate_salt :: "nat \<Rightarrow> string" where
  "generate_salt k =
     (let ds = digits64 22 (randbelow (64 ^ 22) k)
      in map (\<lambda>d. bcrypt64 ! d) (butlast ds @ [16 * (last ds div 16)]))"

definition hash_password :: "pwd_context \<Rightarrow> nat \<Rightarrow> string \<Rightarrow> passlib_error + string" where
  "hash_password ctx k_salt pw =
     (case validate_secret pw of
        Some err \<Rightarrow> Inl err
      | None \<Rightarrow>
          let salt = generate_salt k_salt
          in Inr (''$2b$12$'' @ salt @ digest ctx salt pw))"

definition verify_password :: "pwd_context \<Rightarrow> string \<Rightarrow> string \<Rightarrow> passlib_error + bool" where
  "verify_password ctx pw hashed =
     (if take 7 hashed \<noteq> ''$2b$12$'' then Inl UnknownHashError
      else case validate_secret pw of
        Some err \<Rightarrow> Inl err
      | None \<Rightarrow>
          let salt = take 22 (drop 7 hashed);
              checksum = drop 29 hashed
          in Inr (digest ctx salt pw = checksum))"

section \<open>Helpers\<close>

definition get_player :: "string \<Rightarrow> database \<Rightarrow> http_error + PlayerDB" where
  "get_player uname db =
     (case find (\<lambda>p. username p = uname) (players db) of
        None \<Rightarrow> Inl (HTTPException 404 ''Player not found'')
      | Some player \<Rightarrow> Inr player)"

definition add_exp :: "PlayerDB \<Rightarrow> int \<Rightarrow> PlayerDB" where
  "add_exp player amount =
     (let player = player\<lparr>experience := experience player + amount\<rparr>;
          new_level = 1 + (experience player div 100)
      in if new_level > level player
         then player\<lparr>level := new_level, max_energy := max_energy player + 10\<rparr>
         else player)"

text \<open>
  \<^verbatim>\<open>db.commit()\<close> after a loaded row was modified: the row with that primary key is
  written back.
\<close>

definition commit_player :: "database \<Rightarrow> PlayerDB \<Rightarrow> database" where
  "commit_player db user =
     db\<lparr>players := map (\<lambda>q. if id_player q = id_player user then user else q) (players db)\<rparr>"

section \<open>Routes\<close>

definition register :: "pwd_context \<Rightarrow> database \<Rightarrow> string \<Rightarrow> string \<Rightarrow> nat \<Rightarrow> nat \<Rightarrow> outcome" where
  "register ctx db uname pw k_salt now =
     (if find (\<lambda>p. username p = uname) (players db) \<noteq> None
      then (db, Inl (HTTPException 400 ''Username taken''))
      else
        case hash_password ctx k_salt pw of
          Inl err \<Rightarrow> (db, Inl (InternalServerError err))
        | Inr hashed \<Rightarrow>
            let new_player =
                  \<lparr>id_player = fresh_id (map id_player (players db)),
                   username = uname, password = hashed,
                   money = 100, energy = 100, max_energy = 100, level = 1, experience = 0,
                   strength = 1, agility = 1, intelligence = 1, charisma = 1,
                   wins = 0, losses = 0, created_at = now\<rparr>;
                db = db\<lparr>players := players db @ [new_player]\<rparr>;
                db = db\<lparr>inventory := inventory db @
                       [\<lparr>id_inventory = fresh_id (map id_inventory (inventory db)),
                         player_id = id_player new_player, item_type = ''weapon'',
                         item_id = ''brass_knuckles'', equipped = True\<rparr>]\<rparr>
            in (db, Inr [(''message'', JStr ''Registered'')]))"

definition login :: "pwd_context \<Rightarrow> database \<Rightarrow> string \<Rightarrow> string \<Rightarrow> outcome" where
  "login ctx db uname pw =
     (case get_player uname db of
        Inl e \<Rightarrow> (db, Inl e)
      | Inr user \<Rightarrow>
          (case verify_password ctx pw (password user) of
             Inl err \<Rightarrow> (db, Inl (InternalServerError err))
           | Inr verified \<Rightarrow>
               if \<not> verified
               then (db, Inl (HTTPException 400 ''Invalid credentials''))
               else (db, Inr [(''message'', JStr ''Login successful''),
                              (''username'', JStr (username user))])))"

definition crime :: "database \<Rightarrow> string \<Rightarrow> nat \<Rightarrow> real \<Rightarrow> nat \<Rightarrow> outcome" where
  "crime db uname k_choice roll k_reward =
     (case get_player uname db of
        Inl e \<Rightarrow> (db, Inl e)
      | Inr user \<Rightarrow>
          let c = random_choice CRIMES k_choice in
          if energy user < crime_energy c
          then (db, Inl (HTTPException 400 ''Not enough energy''))
          else
            let user = user\<lparr>energy := energy user - crime_energy c\<rparr> in
            if roll \<le> crime_success c
            then
              let reward = random_randint (crime_reward c) k_reward;
                  user = user\<lparr>money := money user + of_int reward\<rparr>;
                  user = user\<lparr>wins := wins user + 1\<rparr>;
                  user = add_exp user (crime_exp c)
              in (commit_player db user,
                  Inr [(''result'', JStr ''SUCCESS''), (''reward'', JInt reward)])
            else
              let user = user\<lparr>losses := losses user + 1\<rparr>
              in (commit_player db user, Inr [(''result'', JStr ''FAILED'')]))"

definition rest :: "database \<Rightarrow> string \<Rightarrow> outcome" where
  "rest db uname =
     (case get_player uname db of
        Inl e \<Rightarrow> (db, Inl e)
      | Inr user \<Rightarrow>
          let user = user\<lparr>energy := min (max_energy user) (energy user + 40)\<rparr>
          in (commit_player db user, Inr [(''energy'', JInt (energy user))]))"

definition buy_item :: "database \<Rightarrow> string \<Rightarrow> string \<Rightarrow> string \<Rightarrow> outcome" where
  "buy_item db uname iid itype =
     (case get_player uname db of
        Inl e \<Rightarrow> (db, Inl e)
      | Inr player \<Rightarrow>
          (case (if itype = ''weapon'' then WEAPONS iid else ARMOR iid) of
             None \<Rightarrow> (db, Inl (HTTPException 404 ''Item not found''))
           | Some it \<Rightarrow>
               if money player < of_int (price it)
               then (db, Inl (HTTPException 400 ''Not enough money''))
               else
                 let player = player\<lparr>money := money player - of_int (price it)\<rparr>;
                     rows = map (\<lambda>r. if player_id r = id_player player \<and> item_type r = itype
                                      then r\<lparr>equipped := False\<rparr> else r) (inventory db);
                     rows = rows @
                            [\<lparr>id_inventory = fresh_id (map id_inventory rows),
                              player_id = id_player player, item_type = itype,
                              item_id = iid, equipped = True\<rparr>]
                 in ((commit_player db player)\<lparr>inventory := rows\<rparr>,
                     Inr [(''message'', JStr (''Bought '' @ name it))])))"

subsection \<open>Requests and runs\<close>

datatype request =
    Register string string nat nat
  | Login string string
  | Crime string nat real nat
  | Rest string
  | Buy string string string

fun handle :: "pwd_context \<Rightarrow> database \<Rightarrow> request \<Rightarrow> outcome" where
  "handle ctx db (Register uname pw k_salt now) = register ctx db uname pw k_salt now"
| "handle ctx db (Login uname pw) = login ctx db uname pw"
| "handle ctx db (Crime uname k_choice roll k_reward) = crime db uname k_choice roll k_reward"
| "handle ctx db (Rest uname) = rest db uname"
| "handle ctx db (Buy uname iid itype) = buy_item db uname iid itype"

text \<open>The database after serving a sequence of requests, one after the other.\<close>

fun run :: "pwd_context \<Rightarrow> database \<Rightarrow> request list \<Rightarrow> database" where
  "run ctx db [] = db"
| "run ctx db (req # reqs) = run ctx (fst (handle ctx db req)) reqs"

section \<open>Properties of database states\<close>

text \<open>Every player's energy lies between zero and that player's \<open>max_energy\<close>.\<close>

definition energy_capped :: "database \<Rightarrow> bool" where
  "energy_capped db = (\<forall>p \<in> set (players db). 0 \<le> energy p \<and> energy p \<le> max_energy p)"

text \<open>Every player's level is given by the linear formula.\<close>

definition level_linear :: "database \<Rightarrow> bool" where
  "level_linear db = (\<forall>p \<in> set (players db). level p = 1 + experience p div 100)"

text \<open>The equipped rows of one player in one slot (item type), and all rows of one player.\<close>

definition equipped_rows :: "database \<Rightarrow> int \<Rightarrow> string \<Rightarrow> InventoryDB list" where
  "equipped_rows db pid t =
     filter (\<lambda>r. player_id r = pid \<and> item_type r = t \<and> equipped r) (inventory db)"

definition inventory_of :: "database \<Rightarrow> int \<Rightarrow> InventoryDB list" where
  "inventory_of db pid = filter (\<lambda>r. player_id r = pid) (inventory db)"

text \<open>The foreign key: every inventory row belongs to a player of the players table.\<close>

definition refs_ok :: "database \<Rightarrow> bool" where
  "refs_ok db = (\<forall>r \<in> set (inventory db). player_id r \<in> set (map id_player (players db)))"

text \<open>A password context used to evaluate the handlers on concrete requests.\<close>

definition reversing_context :: pwd_context where
  "reversing_context = \<lparr>digest = (\<lambda>salt pw. rev pw)\<rparr>"

text \<open>
  A sample state: the database after \<open>al\<close> registered and pulled off a bank heist
  (see \<open>sample_db_reachable\<close>).
\<close>

definition sample_player :: PlayerDB where
  "sample_player =
     \<lparr>id_player = 1, username = ''al'', password = ''$2b$12$......................wp'',
      money = 1100, energy = 40,
      max_energy = 100, level = 1, experience = 50, strength = 1, agility = 1,
      intelligence = 1, charisma = 1, wins = 1, losses = 0, created_at = 0\<rparr>"

definition sample_db :: database where
  "sample_db =
     \<lparr>players = [sample_player],
      inventory = [\<lparr>id_inventory = 1, player_id = 1, item_type = ''weapon'',
                    item_id = ''brass_knuckles'', equipped = True\<rparr>]\<rparr>"

section \<open>Auxiliary facts\<close>

lemma fold_max_ge: "a \<le> fold max ids (a::int)"
  by (induction ids arbitrary: a) (auto intro: order_trans[OF max.cobounded2])

lemma fold_max_mem: "x \<in> set ids \<Longrightarrow> x \<le> fold max ids (a::int)"
proof (induction ids arbitrary: a)
  case Nil
  then show ?case by simp
next
  case (Cons y ys)
  show ?case
  proof (cases "x = y")
    case True
    have "max y a \<le> fold max ys (max y a)" by (rule fold_max_ge)
    then show ?thesis using True by simp
  next
    case False
    then show ?thesis using Cons by simp
  qed
qed

lemma fresh_id_gt: "x \<in> set ids \<Longrightarrow> x < fresh_id ids"
  using fold_max_mem [of x ids 0] by (simp add: fresh_id_def)

lemma fresh_id_notin: "fresh_id ids \<notin> set ids"
  using fresh_id_gt [of "fresh_id ids" ids] by auto

lemma find_commit:
  assumes "find (\<lambda>p. username p = n) xs = Some u"
      and "username u' = n" and "id_player u = i"
  shows "find (\<lambda>p. username p = n) (map (\<lambda>q. if id_player q = i then u' else q) xs) = Some u'"
  using assms by (induction xs) (auto split: if_splits)

lemma get_player_commit:
  assumes "get_player n db = Inr u" and "username u' = n" and "id_player u' = id_player u"
  shows "get_player n (commit_player db u') = Inr u'"
proof -
  from assms(1) have "find (\<lambda>p. username p = n) (players db) = Some u"
    by (simp add: get_player_def split: option.splits)
  from find_commit [OF this assms(2) assms(3) [symmetric]] show ?thesis
    by (simp add: get_player_def commit_player_def)
qed

lemma get_player_username: "get_player n db = Inr u \<Longrightarrow> username u = n"
  by (auto simp: get_player_def find_Some_iff split: option.splits)

lemma get_player_mem: "get_player n db = Inr u \<Longrightarrow> u \<in> set (players db)"
  by (auto simp: get_player_def find_Some_iff split: option.splits)

lemma random_choice_CRIMES: "random_choice CRIMES k \<in> set CRIMES"
proof -
  have "0 < length CRIMES" by (simp add: CRIMES_def)
  then have "k mod length CRIMES < length CRIMES" by simp
  then have "CRIMES ! (k mod length CRIMES) \<in> set CRIMES" by (rule nth_mem)
  then show ?thesis by (simp only: random_choice_def randbelow_def)
qed

lemma CRIMES_bounds:
  assumes "c \<in> set CRIMES"
  shows "0 < crime_energy c" and "0 < crime_exp c" and "crime_exp c < 100"
    and "fst (crime_reward c) \<le> snd (crime_reward c)"
  using assms by (auto simp: CRIMES_def)

lemma players_commit: "set (players (commit_player db u)) \<subseteq> insert u (set (players db))"
  by (auto simp: commit_player_def)

lemma inventory_commit [simp]: "inventory (commit_player db u) = inventory db"
  by (simp add: commit_player_def)

lemma players_forall_commit:
  assumes "\<forall>p \<in> set (players db). Q p" and "Q u"
  shows "\<forall>p \<in> set (players (commit_player db u)). Q p"
  using assms players_commit [of db u] by auto

lemma crime_players:
  assumes all: "\<forall>p \<in> set (players db). Q p"
    and succ: "\<And>u c reward. Q u \<Longrightarrow> c \<in> set CRIMES \<Longrightarrow> crime_energy c \<le> energy u \<Longrightarrow>
        Q (add_exp (u\<lparr>energy := energy u - crime_energy c, money := money u + of_int reward,
                      wins := wins u + 1\<rparr>) (crime_exp c))"
    and fail: "\<And>u c. Q u \<Longrightarrow> c \<in> set CRIMES \<Longrightarrow> crime_energy c \<le> energy u \<Longrightarrow>
        Q (u\<lparr>energy := energy u - crime_energy c, losses := losses u + 1\<rparr>)"
  shows "\<forall>p \<in> set (players (fst (crime db uname k1 roll k2))). Q p"
proof (cases "get_player uname db")
  case (Inl e)
  then show ?thesis using all by (simp add: crime_def)
next
  case (Inr u)
  then have Qu: "Q u" using all get_player_mem by blast
  let ?c = "random_choice CRIMES k1"
  have c: "?c \<in> set CRIMES" by (rule random_choice_CRIMES)
  show ?thesis
  proof (cases "energy u < crime_energy ?c")
    case True
    then show ?thesis using all Inr by (simp add: crime_def)
  next
    case False
    then have le: "crime_energy ?c \<le> energy u" by simp
    show ?thesis
    proof (cases "roll \<le> crime_success ?c")
      case True
      have "fst (crime db uname k1 roll k2) = commit_player db
          (add_exp (u\<lparr>energy := energy u - crime_energy ?c,
              money := money u + of_int (random_randint (crime_reward ?c) k2),
              wins := wins u + 1\<rparr>) (crime_exp ?c))"
        using Inr False True by (simp add: crime_def Let_def)
      then show ?thesis using players_forall_commit [OF all succ [OF Qu c le]] by simp
    next
      case nope: False
      have "fst (crime db uname k1 roll k2) = commit_player db
          (u\<lparr>energy := energy u - crime_energy ?c, losses := losses u + 1\<rparr>)"
        using Inr False nope by (simp add: crime_def Let_def)
      then show ?thesis using players_forall_commit [OF all fail [OF Qu c le]] by simp
    qed
  qed
qed

lemma rest_players:
  assumes all: "\<forall>p \<in> set (players db). Q p"
    and upd: "\<And>u. Q u \<Longrightarrow> Q (u\<lparr>energy := min (max_energy u) (energy u + 40)\<rparr>)"
  shows "\<forall>p \<in> set (players (fst (rest db uname))). Q p"
proof (cases "get_player uname db")
  case (Inl e)
  then show ?thesis using all by (simp add: rest_def)
next
  case (Inr u)
  then have "Q u" using all get_player_mem by blast
  from players_forall_commit [OF all upd [OF this]] Inr show ?thesis
    by (simp add: rest_def Let_def)
qed

lemma buy_item_players:
  assumes all: "\<forall>p \<in> set (players db). Q p"
    and upd: "\<And>u m. Q u \<Longrightarrow> Q (u\<lparr>money := m\<rparr>)"
  shows "\<forall>p \<in> set (players (fst (buy_item db uname iid itype))). Q p"
proof (cases "get_player uname db")
  case (Inl e)
  then show ?thesis using all by (simp add: buy_item_def)
next
  case (Inr u)
  then have "Q u" using all get_player_mem by blast
  then have "\<And>m. \<forall>p \<in> set (players (commit_player db (u\<lparr>money := m\<rparr>))). Q p"
    using players_forall_commit [OF all upd] by blast
  then show ?thesis using Inr all
    by (simp add: buy_item_def Let_def split: option.splits)
qed

lemma register_players:
  assumes all: "\<forall>p \<in> set (players db). Q p"
    and new: "\<And>i h. Q \<lparr>id_player = i, username = uname, password = h,
               money = 100, energy = 100, max_energy = 100, level = 1, experience = 0,
               strength = 1, agility = 1, intelligence = 1, charisma = 1,
               wins = 0, losses = 0, created_at = now\<rparr>"
  shows "\<forall>p \<in> set (players (fst (register ctx db uname pw k_salt now))). Q p"
  using all new by (simp add: register_def Let_def split: sum.splits)

lemma login_unchanged [simp]: "fst (login ctx db uname pw) = db"
  by (simp add: login_def split: sum.splits)

lemma handle_energy_capped:
  assumes "energy_capped db"
  shows "energy_capped (fst (handle ctx db req))"
proof (cases req)
  case (Register uname pw k_salt now)
  show ?thesis unfolding energy_capped_def Register handle.simps
    by (rule register_players) (use assms in \<open>simp_all add: energy_capped_def\<close>)
next
  case (Login uname pw)
  then show ?thesis using assms by simp
next
  case (Crime uname k1 roll k2)
  show ?thesis unfolding energy_capped_def Crime handle.simps
  proof (rule crime_players)
    show "\<forall>p\<in>set (players db). 0 \<le> energy p \<and> energy p \<le> max_energy p"
      using assms by (simp add: energy_capped_def)
  next
    fix u :: PlayerDB and c :: crime_entry and reward :: int
    assume "0 \<le> energy u \<and> energy u \<le> max_energy u" "c \<in> set CRIMES" "crime_energy c \<le> energy u"
    then show "0 \<le> energy (add_exp (u\<lparr>energy := energy u - crime_energy c,
           money := money u + of_int reward, wins := wins u + 1\<rparr>) (crime_exp c)) \<and>
       energy (add_exp (u\<lparr>energy := energy u - crime_energy c,
           money := money u + of_int reward, wins := wins u + 1\<rparr>) (crime_exp c))
       \<le> max_energy (add_exp (u\<lparr>energy := energy u - crime_energy c,
           money := money u + of_int reward, wins := wins u + 1\<rparr>) (crime_exp c))"
      using CRIMES_bounds(1) [of c] by (simp add: add_exp_def Let_def)
  next
    fix u :: PlayerDB and c :: crime_entry
    assume "0 \<le> energy u \<and> energy u \<le> max_energy u" "c \<in> set CRIMES" "crime_energy c \<le> energy u"
    then show "0 \<le> energy (u\<lparr>energy := energy u - crime_energy c, losses := losses u + 1\<rparr>) \<and>
       energy (u\<lparr>energy := energy u - crime_energy c, losses := losses u + 1\<rparr>)
       \<le> max_energy (u\<lparr>energy := energy u - crime_energy c, losses := losses u + 1\<rparr>)"
      using CRIMES_bounds(1) [of c] by simp
  qed
next
  case (Rest uname)
  show ?thesis unfolding energy_capped_def Rest handle.simps
    by (rule rest_players) (use assms in \<open>auto simp: energy_capped_def\<close>)
next
  case (Buy uname iid itype)
  show ?thesis unfolding energy_capped_def Buy handle.simps
    by (rule buy_item_players) (use assms in \<open>auto simp: energy_capped_def\<close>)
qed

lemma run_invariant:
  assumes "P db" and "\<And>db req. P db \<Longrightarrow> P (fst (handle ctx db req))"
  shows "P (run ctx db reqs)"
  using assms(1) by (induction reqs arbitrary: db) (simp_all add: assms(2))

lemma run_energy_capped: "energy_capped (run ctx empty_db reqs)"
  by (rule run_invariant) (simp_all add: handle_energy_capped, simp add: energy_capped_def empty_db_def)

lemma add_exp_level_linear:
  assumes "level u = 1 + experience u div 100" and "0 \<le> a"
  shows "level (add_exp u a) = 1 + experience (add_exp u a) div 100"
proof -
  have "experience u div 100 \<le> (experience u + a) div 100"
    using assms(2) by (intro zdiv_mono1) simp_all
  then show ?thesis using assms(1) by (simp add: add_exp_def Let_def)
qed

lemma handle_level_linear:
  assumes "level_linear db"
  shows "level_linear (fst (handle ctx db req))"
proof (cases req)
  case (Register uname pw k_salt now)
  show ?thesis unfolding level_linear_def Register handle.simps
    by (rule register_players) (use assms in \<open>simp_all add: level_linear_def\<close>)
next
  case (Login uname pw)
  then show ?thesis using assms by simp
next
  case (Crime uname k1 roll k2)
  show ?thesis unfolding level_linear_def Crime handle.simps
  proof (rule crime_players)
    show "\<forall>p\<in>set (players db). level p = 1 + experience p div 100"
      using assms by (simp add: level_linear_def)
  next
    fix u :: PlayerDB and c :: crime_entry and reward :: int
    let ?u = "u\<lparr>energy := energy u - crime_energy c,
           money := money u + of_int reward, wins := wins u + 1\<rparr>"
    assume "level u = 1 + experience u div 100" "c \<in> set CRIMES"
    then have "level ?u = 1 + experience ?u div 100" "0 \<le> crime_exp c"
      using CRIMES_bounds(2) [of c] by simp_all
    then show "level (add_exp ?u (crime_exp c)) = 1 + experience (add_exp ?u (crime_exp c)) div 100"
      by (rule add_exp_level_linear)
  next
    fix u :: PlayerDB and c :: crime_entry
    assume "level u = 1 + experience u div 100"
    then show "level (u\<lparr>energy := energy u - crime_energy c, losses := losses u + 1\<rparr>) =
       1 + experience (u\<lparr>energy := energy u - crime_energy c, losses := losses u + 1\<rparr>) div 100"
      by simp
  qed
next
  case (Rest uname)
  show ?thesis unfolding level_linear_def Rest handle.simps
    by (rule rest_players) (use assms in \<open>auto simp: level_linear_def\<close>)
next
  case (Buy uname iid itype)
  show ?thesis unfolding level_linear_def Buy handle.simps
    by (rule buy_item_players) (use assms in \<open>auto simp: level_linear_def\<close>)
qed

lemma run_level_linear: "level_linear (run ctx empty_db reqs)"
  by (rule run_invariant) (simp_all add: handle_level_linear, simp add: level_linear_def empty_db_def)


lemma randint_range:
  assumes "fst ab \<le> snd ab"
  shows "fst ab \<le> random_randint ab k" and "random_randint ab k \<le> snd ab"
proof -
  let ?n = "nat (snd ab - fst ab + 1)"
  have "0 < ?n" using assms by simp
  then have "k mod ?n < ?n" by simp
  then have "int (k mod ?n) < snd ab - fst ab + 1" using assms by linarith
  then show "random_randint ab k \<le> snd ab" by (simp add: random_randint_def randbelow_def)
  show "fst ab \<le> random_randint ab k" by (simp add: random_randint_def randbelow_def)
qed

lemma randint_onto:
  assumes "fst ab \<le> r" and "r \<le> snd ab"
  shows "random_randint ab (nat (r - fst ab)) = r"
proof -
  have "nat (r - fst ab) < nat (snd ab - fst ab + 1)" using assms by simp
  then show ?thesis using assms by (simp add: random_randint_def randbelow_def)
qed

lemma randint_outcome: "random_randint ab k = random_randint ab (randbelow (nat (snd ab - fst ab + 1)) k)"
  by (simp add: random_randint_def randbelow_def)

lemma filter_eq_upt: "filter (\<lambda>j. j = m) [0..<n] = (if m < n then [m] else [])"
  by (induction n) auto

lemma randint_draws:
  assumes "fst ab \<le> r"
  shows "filter (\<lambda>j. random_randint ab j = r) [0..<nat (snd ab - fst ab + 1)] =
     (if r \<le> snd ab then [nat (r - fst ab)] else [])"
proof -
  let ?n = "nat (snd ab - fst ab + 1)"
  have "filter (\<lambda>j. random_randint ab j = r) [0..<?n] = filter (\<lambda>j. j = nat (r - fst ab)) [0..<?n]"
  proof (rule filter_cong [OF refl])
    fix j assume "j \<in> set [0..<?n]"
    then have "j mod ?n = j" by simp
    then show "(random_randint ab j = r) = (j = nat (r - fst ab))"
      using assms by (auto simp: random_randint_def randbelow_def)
  qed
  also have "\<dots> = (if nat (r - fst ab) < ?n then [nat (r - fst ab)] else [])"
    by (rule filter_eq_upt)
  also have "\<dots> = (if r \<le> snd ab then [nat (r - fst ab)] else [])"
    using assms by auto
  finally show ?thesis .
qed

lemma randint_uniform:
  assumes "fst ab \<le> r" and "r \<le> snd ab"
  shows "randint_probability ab r = 1 / of_int (snd ab - fst ab + 1)"
proof -
  have "real (nat (snd ab - fst ab + 1)) = of_int (snd ab - fst ab + 1)"
    using assms by simp
  then show ?thesis
    using assms by (simp add: randint_probability_def Let_def randint_draws [OF assms(1)])
qed

lemma randint_outside:
  assumes "fst ab \<le> snd ab" and "r < fst ab \<or> snd ab < r"
  shows "randint_probability ab r = 0"
proof -
  have "random_randint ab j \<noteq> r" for j
    using randint_range [OF assms(1), of j] assms(2) by linarith
  then have "filter (\<lambda>j. random_randint ab j = r) [0..<nat (snd ab - fst ab + 1)] = []"
    by (simp add: filter_empty_conv)
  then show ?thesis by (simp add: randint_probability_def Let_def)
qed

lemma buy_item_success:
  assumes found: "get_player uname db = Inr player"
    and listed: "(if itype = ''weapon'' then WEAPONS iid else ARMOR iid) = Some it"
    and afford: "of_int (price it) \<le> money player"
  shows "buy_item db uname iid itype =
     ((commit_player db (player\<lparr>money := money player - of_int (price it)\<rparr>))
        \<lparr>inventory :=
           map (\<lambda>r. if player_id r = id_player player \<and> item_type r = itype
                     then r\<lparr>equipped := False\<rparr> else r) (inventory db) @
           [\<lparr>id_inventory = fresh_id (map id_inventory (inventory db)),
             player_id = id_player player, item_type = itype, item_id = iid,
             equipped = True\<rparr>]\<rparr>,
      Inr [(''message'', JStr (''Bought '' @ name it))])"
proof -
  have ids: "id_inventory \<circ> (\<lambda>r. if player_id r = id_player player \<and> item_type r = itype
                     then r\<lparr>equipped := False\<rparr> else r) = id_inventory"
    by (auto simp: fun_eq_iff)
  show ?thesis using assms
    by (simp add: buy_item_def Let_def ids)
qed

lemma get_player_inventory_update [simp]:
  "get_player uname (db\<lparr>inventory := rows\<rparr>) = get_player uname db"
  by (simp add: get_player_def)

lemma find_append_None: "find P xs = None \<Longrightarrow> find P (xs @ ys) = find P ys"
  by (induction xs) (auto split: if_splits)

lemma ids_commit [simp]: "map id_player (players (commit_player db u)) = map id_player (players db)"
proof -
  have "id_player \<circ> (\<lambda>q. if id_player q = id_player u then u else q) = id_player"
    by (auto simp: fun_eq_iff)
  then show ?thesis by (simp add: commit_player_def)
qed

lemma refs_ok_commit [simp]: "refs_ok (commit_player db u) = refs_ok db"
  unfolding refs_ok_def by (simp only: ids_commit inventory_commit)

lemma crime_state:
  "fst (crime db uname k1 roll k2) = db \<or> (\<exists>u. fst (crime db uname k1 roll k2) = commit_player db u)"
  by (auto simp: crime_def Let_def split: sum.splits)

lemma rest_state:
  "fst (rest db uname) = db \<or> (\<exists>u. fst (rest db uname) = commit_player db u)"
  by (auto simp: rest_def Let_def split: sum.splits)

lemma crime_inventory [simp]: "inventory (fst (crime db uname k1 roll k2)) = inventory db"
  using crime_state [of db uname k1 roll k2] by auto

lemma rest_inventory [simp]: "inventory (fst (rest db uname)) = inventory db"
  using rest_state [of db uname] by auto

lemma buy_item_state:
  "fst (buy_item db uname iid itype) = db \<or>
   (\<exists>player it. get_player uname db = Inr player \<and>
      (if itype = ''weapon'' then WEAPONS iid else ARMOR iid) = Some it \<and>
      of_int (price it) \<le> money player)"
  by (auto simp: buy_item_def Let_def split: sum.splits option.splits)

lemma register_success:
  assumes "find (\<lambda>p. username p = uname) (players db) = None"
    and "hash_password ctx k_salt pw = Inr hashed"
  shows "register ctx db uname pw k_salt now =
     (\<lparr>players = players db @
          [\<lparr>id_player = fresh_id (map id_player (players db)),
            username = uname, password = hashed,
            money = 100, energy = 100, max_energy = 100, level = 1, experience = 0,
            strength = 1, agility = 1, intelligence = 1, charisma = 1,
            wins = 0, losses = 0, created_at = now\<rparr>],
       inventory = inventory db @
          [\<lparr>id_inventory = fresh_id (map id_inventory (inventory db)),
            player_id = fresh_id (map id_player (players db)), item_type = ''weapon'',
            item_id = ''brass_knuckles'', equipped = True\<rparr>]\<rparr>,
      Inr [(''message'', JStr ''Registered'')])"
  using assms by (cases db) (simp add: register_def Let_def)

lemma register_Inr:
  assumes "snd (register ctx db uname pw k_salt now) = Inr resp"
  shows "find (\<lambda>p. username p = uname) (players db) = None"
    and "\<exists>hashed. hash_password ctx k_salt pw = Inr hashed"
proof -
  show none: "find (\<lambda>p. username p = uname) (players db) = None"
  proof (rule ccontr)
    assume "find (\<lambda>p. username p = uname) (players db) \<noteq> None"
    then have "snd (register ctx db uname pw k_salt now) = Inl (HTTPException 400 ''Username taken'')"
      by (simp add: register_def)
    then show False using assms by simp
  qed
  show "\<exists>hashed. hash_password ctx k_salt pw = Inr hashed"
  proof (cases "hash_password ctx k_salt pw")
    case (Inl err)
    then have "snd (register ctx db uname pw k_salt now) = Inl (InternalServerError err)"
      using none by (simp add: register_def)
    then show ?thesis using assms by simp
  next
    case (Inr hashed)
    then show ?thesis by simp
  qed
qed

lemma hash_password_Inr:
  assumes "validate_secret pw = None"
  shows "hash_password ctx k_salt pw =
     Inr (''$2b$12$'' @ generate_salt k_salt @ digest ctx (generate_salt k_salt) pw)"
  using assms by (simp add: hash_password_def Let_def)

lemma hash_password_accepts:
  "(\<exists>hashed. hash_password ctx k_salt pw = Inr hashed) \<longleftrightarrow> validate_secret pw = None"
  by (cases "validate_secret pw") (simp_all add: hash_password_def Let_def)

lemma digits64_numeral:
  "digits64 (numeral n) v = v mod 64 # digits64 (pred_numeral n) (v div 64)"
  by (simp only: numeral_eq_Suc [of n] digits64.simps)



lemma generate_salt_0: "generate_salt 0 = ''......................''"
  by (simp add: generate_salt_def randbelow_def bcrypt64_def digits64_numeral)





lemma register_free:
  assumes free: "get_player uname db = Inl e"
    and hashed: "hash_password ctx k_salt pw = Inr hashed"
  shows "register ctx db uname pw k_salt now =
     (\<lparr>players = players db @
          [\<lparr>id_player = fresh_id (map id_player (players db)),
            username = uname, password = hashed,
            money = 100, energy = 100, max_energy = 100, level = 1, experience = 0,
            strength = 1, agility = 1, intelligence = 1, charisma = 1,
            wins = 0, losses = 0, created_at = now\<rparr>],
       inventory = inventory db @
          [\<lparr>id_inventory = fresh_id (map id_inventory (inventory db)),
            player_id = fresh_id (map id_player (players db)), item_type = ''weapon'',
            item_id = ''brass_knuckles'', equipped = True\<rparr>]\<rparr>,
      Inr [(''message'', JStr ''Registered'')])"
    and "get_player uname (fst (register ctx db uname pw k_salt now)) =
      Inr \<lparr>id_player = fresh_id (map id_player (players db)),
            username = uname, password = hashed,
            money = 100, energy = 100, max_energy = 100, level = 1, experience = 0,
            strength = 1, agility = 1, intelligence = 1, charisma = 1,
            wins = 0, losses = 0, created_at = now\<rparr>"
proof -
  let ?new = "\<lparr>id_player = fresh_id (map id_player (players db)),
            username = uname, password = hashed,
            money = 100, energy = 100, max_energy = 100, level = 1, experience = 0,
            strength = 1, agility = 1, intelligence = 1, charisma = 1,
            wins = 0, losses = 0, created_at = now\<rparr>"
  have none: "find (\<lambda>p. username p = uname) (players db) = None"
    using free by (simp add: get_player_def split: option.splits)
  note out = register_success [OF none hashed, where now = now]
  show "register ctx db uname pw k_salt now =
     (\<lparr>players = players db @ [?new],
       inventory = inventory db @
          [\<lparr>id_inventory = fresh_id (map id_inventory (inventory db)),
            player_id = fresh_id (map id_player (players db)), item_type = ''weapon'',
            item_id = ''brass_knuckles'', equipped = True\<rparr>]\<rparr>,
      Inr [(''message'', JStr ''Registered'')])"
    by (rule out)
  have "find (\<lambda>p. username p = uname) (players db @ [?new]) = Some ?new"
    using find_append_None [OF none, of "[?new]"] by simp
  then show "get_player uname (fst (register ctx db uname pw k_salt now)) = Inr ?new"
    by (simp add: out get_player_def)
qed

lemma register_state:
  "fst (register ctx db uname pw k_salt now) = db \<or>
   (\<exists>new. id_player new = fresh_id (map id_player (players db)) \<and>
      fst (register ctx db uname pw k_salt now) =
        \<lparr>players = players db @ [new],
         inventory = inventory db @
           [\<lparr>id_inventory = fresh_id (map id_inventory (inventory db)),
             player_id = id_player new, item_type = ''weapon'',
             item_id = ''brass_knuckles'', equipped = True\<rparr>]\<rparr>)"
proof (cases "find (\<lambda>p. username p = uname) (players db)")
  case None
  show ?thesis
  proof (cases "hash_password ctx k_salt pw")
    case (Inl err)
    then show ?thesis using None by (simp add: register_def)
  next
    case (Inr hashed)
    show ?thesis
      by (rule disjI2, rule exI [of _ "\<lparr>id_player = fresh_id (map id_player (players db)),
            username = uname, password = hashed,
            money = 100, energy = 100, max_energy = 100, level = 1, experience = 0,
            strength = 1, agility = 1, intelligence = 1, charisma = 1,
            wins = 0, losses = 0, created_at = now\<rparr>"])
         (simp add: register_success [OF None Inr])
  qed
next
  case (Some p)
  then show ?thesis by (simp add: register_def)
qed

lemma refs_ok_fresh:
  assumes "refs_ok db"
  shows "filter (\<lambda>r. player_id r = fresh_id (map id_player (players db)) \<and> Q r) (inventory db) = []"
proof -
  have "player_id r \<noteq> fresh_id (map id_player (players db))" if "r \<in> set (inventory db)" for r
    using assms that fresh_id_notin [of "map id_player (players db)"]
    unfolding refs_ok_def by metis
  then show ?thesis by (simp add: filter_empty_conv)
qed

lemma handle_refs_ok:
  assumes "refs_ok db"
  shows "refs_ok (fst (handle ctx db req))"
proof (cases req)
  case (Register uname pw k_salt now)
  from register_state [of ctx db uname pw k_salt now] show ?thesis
  proof
    assume "fst (register ctx db uname pw k_salt now) = db"
    then show ?thesis using assms Register by simp
  next
    assume "\<exists>new. id_player new = fresh_id (map id_player (players db)) \<and>
      fst (register ctx db uname pw k_salt now) =
        \<lparr>players = players db @ [new],
         inventory = inventory db @
           [\<lparr>id_inventory = fresh_id (map id_inventory (inventory db)),
             player_id = id_player new, item_type = ''weapon'',
             item_id = ''brass_knuckles'', equipped = True\<rparr>]\<rparr>"
    then show ?thesis using assms Register by (auto simp: refs_ok_def)
  qed
next
  case (Login uname pw)
  then show ?thesis using assms by simp
next
  case (Crime uname k1 roll k2)
  then show ?thesis using assms crime_state [of db uname k1 roll k2] by auto
next
  case (Rest uname)
  then show ?thesis using assms rest_state [of db uname] by auto
next
  case (Buy uname iid itype)
  from buy_item_state [of db uname iid itype] show ?thesis
  proof
    assume "fst (buy_item db uname iid itype) = db"
    then show ?thesis using assms Buy by simp
  next
    assume "\<exists>player it. get_player uname db = Inr player \<and>
      (if itype = ''weapon'' then WEAPONS iid else ARMOR iid) = Some it \<and>
      of_int (price it) \<le> money player"
    then obtain player it where found: "get_player uname db = Inr player"
      and listed: "(if itype = ''weapon'' then WEAPONS iid else ARMOR iid) = Some it"
      and afford: "of_int (price it) \<le> money player" by blast
    have "id_player player \<in> set (map id_player (players db))"
      using get_player_mem [OF found] by simp
    then show ?thesis
      using assms Buy buy_item_success [OF found listed afford]
      by (auto simp: refs_ok_def)
  qed
qed

lemma run_refs_ok: "refs_ok (run ctx empty_db reqs)"
  by (rule run_invariant) (simp_all add: handle_refs_ok, simp add: refs_ok_def empty_db_def)

lemma equipped_rows_cong: "inventory db' = inventory db \<Longrightarrow> equipped_rows db' = equipped_rows db"
  by (simp add: equipped_rows_def fun_eq_iff)

lemma buy_item_slot:
  assumes found: "get_player uname db = Inr player"
    and listed: "(if itype = ''weapon'' then WEAPONS iid else ARMOR iid) = Some it"
    and afford: "of_int (price it) \<le> money player"
  shows "equipped_rows (fst (buy_item db uname iid itype)) pid t =
     (if pid = id_player player \<and> t = itype
      then [\<lparr>id_inventory = fresh_id (map id_inventory (inventory db)),
             player_id = id_player player, item_type = itype, item_id = iid,
             equipped = True\<rparr>]
      else equipped_rows db pid t)"
proof -
  let ?f = "\<lambda>r. if player_id r = id_player player \<and> item_type r = itype
                     then r\<lparr>equipped := False\<rparr> else r"
  have old: "filter (\<lambda>r. player_id r = pid \<and> item_type r = t \<and> equipped r) (map ?f rows) =
      (if pid = id_player player \<and> t = itype then []
       else filter (\<lambda>r. player_id r = pid \<and> item_type r = t \<and> equipped r) rows)"
    for rows :: "InventoryDB list"
    by (induction rows) auto
  show ?thesis
    unfolding equipped_rows_def buy_item_success [OF assms]
    by (auto simp: old)
qed

lemma buy_item_slots:
  assumes "\<forall>pid t. length (equipped_rows db pid t) \<le> 1"
  shows "length (equipped_rows (fst (buy_item db uname iid itype)) pid t) \<le> 1"
  using buy_item_state [of db uname iid itype]
proof
  assume "fst (buy_item db uname iid itype) = db"
  then show ?thesis using assms by simp
next
  assume "\<exists>player it. get_player uname db = Inr player \<and>
      (if itype = ''weapon'' then WEAPONS iid else ARMOR iid) = Some it \<and>
      of_int (price it) \<le> money player"
  then obtain player it where "get_player uname db = Inr player"
      "(if itype = ''weapon'' then WEAPONS iid else ARMOR iid) = Some it"
      "of_int (price it) \<le> money player" by blast
  from buy_item_slot [OF this] show ?thesis using assms by simp
qed

lemma register_slots:
  assumes refs: "refs_ok db" and slots: "\<forall>pid t. length (equipped_rows db pid t) \<le> 1"
  shows "length (equipped_rows (fst (register ctx db uname pw k_salt now)) pid t) \<le> 1"
  using register_state [of ctx db uname pw k_salt now]
proof
  assume "fst (register ctx db uname pw k_salt now) = db"
  then show ?thesis using slots by simp
next
  assume "\<exists>new. id_player new = fresh_id (map id_player (players db)) \<and>
      fst (register ctx db uname pw k_salt now) =
        \<lparr>players = players db @ [new],
         inventory = inventory db @
           [\<lparr>id_inventory = fresh_id (map id_inventory (inventory db)),
             player_id = id_player new, item_type = ''weapon'',
             item_id = ''brass_knuckles'', equipped = True\<rparr>]\<rparr>"
  then obtain new where new: "id_player new = fresh_id (map id_player (players db))"
    and out: "fst (register ctx db uname pw k_salt now) =
        \<lparr>players = players db @ [new],
         inventory = inventory db @
           [\<lparr>id_inventory = fresh_id (map id_inventory (inventory db)),
             player_id = id_player new, item_type = ''weapon'',
             item_id = ''brass_knuckles'', equipped = True\<rparr>]\<rparr>" by blast
  show ?thesis
  proof (cases "pid = fresh_id (map id_player (players db))")
    case True
    have "equipped_rows db pid t = []"
      unfolding equipped_rows_def True
      by (rule refs_ok_fresh [OF refs])
    then show ?thesis using new by (simp add: out equipped_rows_def)
  next
    case False
    then have "equipped_rows (fst (register ctx db uname pw k_salt now)) pid t = equipped_rows db pid t"
      using new by (simp add: out equipped_rows_def)
    then show ?thesis using slots by simp
  qed
qed

lemma handle_slots:
  assumes "refs_ok db \<and> (\<forall>pid t. length (equipped_rows db pid t) \<le> 1)"
  shows "refs_ok (fst (handle ctx db req)) \<and>
     (\<forall>pid t. length (equipped_rows (fst (handle ctx db req)) pid t) \<le> 1)"
proof
  show "refs_ok (fst (handle ctx db req))" using assms handle_refs_ok by blast
  show "\<forall>pid t. length (equipped_rows (fst (handle ctx db req)) pid t) \<le> 1"
  proof (cases req)
    case (Register uname pw k_salt now)
    then show ?thesis using assms register_slots by simp
  next
    case (Login uname pw)
    then show ?thesis using assms by simp
  next
    case (Crime uname k1 roll k2)
    then show ?thesis using assms
      by (simp add: equipped_rows_cong [OF crime_inventory])
  next
    case (Rest uname)
    then show ?thesis using assms
      by (simp add: equipped_rows_cong [OF rest_inventory])
  next
    case (Buy uname iid itype)
    then show ?thesis using assms buy_item_slots by simp
  qed
qed

lemma run_slots:
  "refs_ok (run ctx empty_db reqs) \<and>
   (\<forall>pid t. length (equipped_rows (run ctx empty_db reqs) pid t) \<le> 1)"
  by (rule run_invariant [where P = "\<lambda>db. refs_ok db \<and> (\<forall>pid t. length (equipped_rows db pid t) \<le> 1)"])
     (simp add: refs_ok_def equipped_rows_def empty_db_def, rule handle_slots)

lemma buy_item_Inr:
  assumes found: "get_player uname db = Inr player"
    and ok: "snd (buy_item db uname iid itype) = Inr resp"
  shows "\<exists>it. (if itype = ''weapon'' then WEAPONS iid else ARMOR iid) = Some it \<and>
     of_int (price it) \<le> money player"
proof (cases "if itype = ''weapon'' then WEAPONS iid else ARMOR iid")
  case None
  then have "snd (buy_item db uname iid itype) = Inl (HTTPException 404 ''Item not found'')"
    using found by (simp add: buy_item_def)
  then show ?thesis using ok by simp
next
  case (Some it)
  show ?thesis
  proof (cases "money player < of_int (price it)")
    case True
    then have "snd (buy_item db uname iid itype) = Inl (HTTPException 400 ''Not enough money'')"
      using found Some by (simp add: buy_item_def)
    then show ?thesis using ok by simp
  next
    case False
    then show ?thesis using Some by simp
  qed
qed

lemma unequip_slot:
  assumes "r \<in> set (map (\<lambda>r. if player_id r = pid \<and> item_type r = t
                     then r\<lparr>equipped := False\<rparr> else r) rows)"
    and "player_id r = pid" and "item_type r = t"
  shows "\<not> equipped r"
proof -
  from assms(1) obtain q where "r = (if player_id q = pid \<and> item_type q = t
                     then q\<lparr>equipped := False\<rparr> else q)"
    unfolding set_map by blast
  then show ?thesis using assms(2,3) by (cases "player_id q = pid \<and> item_type q = t") simp_all
qed

lemma buy_item_replaces_slot:
  assumes found: "get_player uname db = Inr player"
    and ok: "snd (buy_item db uname iid itype) = Inr resp"
  shows "equipped_rows (fst (buy_item db uname iid itype)) (id_player player) itype =
        [last (inventory (fst (buy_item db uname iid itype)))]"
    and "\<forall>r \<in> set (butlast (inventory (fst (buy_item db uname iid itype)))).
         player_id r = id_player player \<and> item_type r = itype \<longrightarrow> \<not> equipped r"
    and "length (inventory (fst (buy_item db uname iid itype))) = length (inventory db) + 1"
proof -
  from buy_item_Inr [OF found ok]
  obtain it where listed: "(if itype = ''weapon'' then WEAPONS iid else ARMOR iid) = Some it"
    and afford: "of_int (price it) \<le> money player" by blast
  note out = buy_item_success [OF found listed afford]
  show "equipped_rows (fst (buy_item db uname iid itype)) (id_player player) itype =
        [last (inventory (fst (buy_item db uname iid itype)))]"
    by (simp add: buy_item_slot [OF found listed afford]) (simp add: out)
  show "\<forall>r \<in> set (butlast (inventory (fst (buy_item db uname iid itype)))).
         player_id r = id_player player \<and> item_type r = itype \<longrightarrow> \<not> equipped r"
  proof (intro ballI impI)
    fix r
    assume "r \<in> set (butlast (inventory (fst (buy_item db uname iid itype))))"
      and slot: "player_id r = id_player player \<and> item_type r = itype"
    then have "r \<in> set (map (\<lambda>r. if player_id r = id_player player \<and> item_type r = itype
                     then r\<lparr>equipped := False\<rparr> else r) (inventory db))"
      by (simp add: out)
    then show "\<not> equipped r" using slot by (intro unequip_slot) simp_all
  qed
  show "length (inventory (fst (buy_item db uname iid itype))) = length (inventory db) + 1"
    by (simp add: out)
qed

lemma register_fresh_slots:
  assumes refs: "refs_ok db" and free: "get_player uname db = Inl e"
    and ok: "validate_secret pw = None"
  shows "\<exists>user. get_player uname (fst (register ctx db uname pw k_salt now)) = Inr user \<and>
         length (equipped_rows (fst (register ctx db uname pw k_salt now)) (id_player user) ''weapon'') = 1 \<and>
         (t \<noteq> ''weapon'' \<longrightarrow> equipped_rows (fst (register ctx db uname pw k_salt now)) (id_player user) t = [])"
proof -
  let ?hashed = "''$2b$12$'' @ generate_salt k_salt @ digest ctx (generate_salt k_salt) pw"
  let ?new = "\<lparr>id_player = fresh_id (map id_player (players db)),
               username = uname, password = ?hashed,
               money = 100, energy = 100, max_energy = 100, level = 1, experience = 0,
               strength = 1, agility = 1, intelligence = 1, charisma = 1,
               wins = 0, losses = 0, created_at = now\<rparr>"
  let ?db = "fst (register ctx db uname pw k_salt now)"
  note out = register_free(1) [OF free hash_password_Inr [OF ok], where now = now]
  note got = register_free(2) [OF free hash_password_Inr [OF ok], where now = now]
  have old: "filter (\<lambda>r. player_id r = fresh_id (map id_player (players db)) \<and>
       item_type r = s \<and> equipped r) (inventory db) = []" for s
    by (rule refs_ok_fresh [OF refs])
  have "length (equipped_rows ?db (id_player ?new) ''weapon'') = 1"
    by (simp add: out equipped_rows_def old)
  moreover have "t \<noteq> ''weapon'' \<longrightarrow> equipped_rows ?db (id_player ?new) t = []"
    by (simp add: out equipped_rows_def old)
  ultimately show ?thesis
    using got by (intro exI [of _ ?new]) simp
qed












lemmas eval_defs = register_def crime_def rest_def buy_item_def login_def get_player_def
  commit_player_def fresh_id_def random_choice_def randbelow_def random_randint_def
  add_exp_def hash_password_def verify_password_def validate_secret_def
  reversing_context_def
  sample_db_def sample_player_def empty_db_def CRIMES_def WEAPONS_def ARMOR_def Let_def

lemma sample_db_reachable:
  "sample_db = run reversing_context empty_db
     [Register ''al'' ''pw'' 0 0, Crime ''al'' 1 0 500]"
  by (simp add: eval_defs generate_salt_0)

lemma sample_found: "get_player ''al'' sample_db = Inr sample_player"
  by (simp add: get_player_def sample_db_def sample_player_def)

lemma sample_jacket: "(if ''armor'' = ''weapon'' then WEAPONS ''leather_jacket'' else ARMOR ''leather_jacket'') =
  Some \<lparr>name = ''Leather Jacket'', damage = None, defense = Some 5, price = 300, level_req = 1\<rparr>"
  by (simp add: ARMOR_def)

section \<open>Leveling\<close>

text \<open>
  Claim C6. \<open>add_exp\<close> adds exactly the given amount to the experience. When
  \<open>1 + floor (new experience / 100)\<close> exceeds the current level, the level becomes that
  value and \<open>max_energy\<close> grows by 10; otherwise both stay as they are. The level never
  decreases. In every state the service can reach from the empty database, every player's
  level is \<open>1 + floor (experience / 100)\<close>.
\<close>

theorem add_exp_leveling:
  "experience (add_exp player amount) = experience player + amount \<and>
   (level player < 1 + (experience player + amount) div 100 \<longrightarrow>
      level (add_exp player amount) = 1 + (experience player + amount) div 100 \<and>
      max_energy (add_exp player amount) = max_energy player + 10) \<and>
   (\<not> level player < 1 + (experience player + amount) div 100 \<longrightarrow>
      level (add_exp player amount) = level player \<and>
      max_energy (add_exp player amount) = max_energy player) \<and>
   level player \<le> level (add_exp player amount) \<and>
   level_linear (run ctx empty_db reqs)"
  using run_level_linear [of ctx reqs] by (simp add: add_exp_def Let_def)

theorem add_exp_leveling_witness:
  "experience (add_exp sample_player 50) = 100 \<and>
   level (add_exp sample_player 50) = 2 \<and>
   max_energy (add_exp sample_player 50) = 110 \<and>
   experience (add_exp sample_player 5) = 55 \<and>
   level (add_exp sample_player 5) = 1 \<and>
   max_energy (add_exp sample_player 5) = 100 \<and>
   level_linear sample_db"
  using add_exp_leveling [of sample_player 50 reversing_context
      "[Register ''al'' ''pw'' 0 0, Crime ''al'' 1 0 500]"]
    add_exp_leveling [of sample_player 5 reversing_context
      "[Register ''al'' ''pw'' 0 0, Crime ''al'' 1 0 500]"]
    sample_db_reachable
  by (simp add: sample_player_def)

section \<open>The energy cap\<close>

text \<open>
  Claim C3. In every state reachable from the empty database every player has
  \<open>0 \<le> energy \<le> max_energy\<close>; every request (register, login, crime, rest, buy)
  preserves this property of the database; and \<open>add_exp\<close>, which may raise
  \<open>max_energy\<close> on a level-up, preserves it for the player it updates.
\<close>

theorem energy_capped_invariant:
  "energy_capped (run ctx empty_db reqs) \<and>
   (energy_capped db \<longrightarrow> energy_capped (fst (handle ctx db req))) \<and>
   (0 \<le> energy player \<and> energy player \<le> max_energy player \<longrightarrow>
      0 \<le> energy (add_exp player amount) \<and>
      energy (add_exp player amount) \<le> max_energy (add_exp player amount))"
  using run_energy_capped [of ctx reqs] handle_energy_capped [of db ctx req]
  by (simp add: add_exp_def Let_def)

theorem energy_capped_invariant_witness:
  "energy_capped sample_db \<and>
   energy_capped (fst (handle reversing_context sample_db (Rest ''al''))) \<and>
   energy_capped (fst (handle reversing_context sample_db (Crime ''al'' 0 0 7))) \<and>
   0 \<le> energy (add_exp sample_player 50) \<and>
   energy (add_exp sample_player 50) \<le> max_energy (add_exp sample_player 50)"
proof -
  have reach: "energy_capped sample_db"
    using energy_capped_invariant [of reversing_context
      "[Register ''al'' ''pw'' 0 0, Crime ''al'' 1 0 500]"]
    by (simp only: sample_db_reachable [symmetric])
  have cap: "0 \<le> energy sample_player \<and> energy sample_player \<le> max_energy sample_player"
    by (simp add: sample_player_def)
  show ?thesis
    using reach cap
      energy_capped_invariant [of reversing_context "[]" sample_db "Rest ''al''" sample_player 50]
      energy_capped_invariant [of reversing_context "[]" sample_db "Crime ''al'' 0 0 7" sample_player 50]
    by blast
qed

section \<open>The crime action\<close>

text \<open>
  Claim C1. Let the player exist and have at least the energy the randomly chosen crime
  costs. The chosen crime is an entry of the catalog, and the handler deducts exactly its
  energy cost. If the success roll is at most the crime's success probability (a
  comparison of doubles), the reward drawn lies in the crime's inclusive reward range, the
  response is SUCCESS with that reward, and the stored player is the old one
  with money increased by the reward, wins increased by one and the crime's experience
  added by \<open>add_exp\<close>. Otherwise the response is FAILED and the stored player is
  the old one with only the energy deducted and losses increased by one. The inventory
  is untouched. The reward is drawn uniformly: it is determined by the number that the
  generator draws below the size of the range, every value of the range has probability
  one over that size, and every other value has probability zero.
\<close>

theorem crime_effect:
  assumes found: "get_player uname db = Inr user"
    and chosen: "c = random_choice CRIMES k_choice"
    and enough: "crime_energy c \<le> energy user"
    and reward: "reward = random_randint (crime_reward c) k_reward"
  shows "c \<in> set CRIMES \<and>
     (roll \<le> crime_success c \<longrightarrow>
        fst (crime_reward c) \<le> reward \<and> reward \<le> snd (crime_reward c) \<and>
        snd (crime db uname k_choice roll k_reward) =
          Inr [(''result'', JStr ''SUCCESS''), (''reward'', JInt reward)] \<and>
        (\<exists>user'. get_player uname (fst (crime db uname k_choice roll k_reward)) = Inr user' \<and>
           user' = add_exp (user\<lparr>energy := energy user - crime_energy c,
                                 money := money user + of_int reward,
                                 wins := wins user + 1\<rparr>) (crime_exp c) \<and>
           energy user' = energy user - crime_energy c \<and>
           money user' = money user + of_int reward \<and>
           wins user' = wins user + 1 \<and>
           losses user' = losses user \<and>
           experience user' = experience user + crime_exp c)) \<and>
     (\<not> roll \<le> crime_success c \<longrightarrow>
        snd (crime db uname k_choice roll k_reward) = Inr [(''result'', JStr ''FAILED'')] \<and>
        get_player uname (fst (crime db uname k_choice roll k_reward)) =
          Inr (user\<lparr>energy := energy user - crime_energy c, losses := losses user + 1\<rparr>)) \<and>
     inventory (fst (crime db uname k_choice roll k_reward)) = inventory db \<and>
     (\<forall>r. fst (crime_reward c) \<le> r \<and> r \<le> snd (crime_reward c) \<longrightarrow>
          (\<exists>k. random_randint (crime_reward c) k = r)) \<and>
     reward = random_randint (crime_reward c)
                (randbelow (nat (snd (crime_reward c) - fst (crime_reward c) + 1)) k_reward) \<and>
     (\<forall>r. fst (crime_reward c) \<le> r \<and> r \<le> snd (crime_reward c) \<longrightarrow>
          randint_probability (crime_reward c) r =
            1 / of_int (snd (crime_reward c) - fst (crime_reward c) + 1)) \<and>
     (\<forall>r. r < fst (crime_reward c) \<or> snd (crime_reward c) < r \<longrightarrow>
          randint_probability (crime_reward c) r = 0)"
proof -
  have c: "c \<in> set CRIMES" using chosen random_choice_CRIMES by simp
  have name: "username user = uname" by (rule get_player_username [OF found])
  let ?s = "add_exp (user\<lparr>energy := energy user - crime_energy c,
               money := money user + of_int reward, wins := wins user + 1\<rparr>) (crime_exp c)"
  let ?f = "user\<lparr>energy := energy user - crime_energy c, losses := losses user + 1\<rparr>"
  have s: "get_player uname (commit_player db ?s) = Inr ?s"
    by (rule get_player_commit [OF found]) (simp_all add: add_exp_def Let_def name)
  have f: "get_player uname (commit_player db ?f) = Inr ?f"
    by (rule get_player_commit [OF found]) (simp_all add: name)
  have succ: "crime db uname k_choice roll k_reward =
      (commit_player db ?s, Inr [(''result'', JStr ''SUCCESS''), (''reward'', JInt reward)])"
    if "roll \<le> crime_success c"
    using found enough that chosen reward by (simp add: crime_def Let_def)
  have fail: "crime db uname k_choice roll k_reward =
      (commit_player db ?f, Inr [(''result'', JStr ''FAILED'')])"
    if "\<not> roll \<le> crime_success c"
    using found enough that chosen by (simp add: crime_def Let_def)
  have inv: "inventory (fst (crime db uname k_choice roll k_reward)) = inventory db"
    using succ fail by (cases "roll \<le> crime_success c") simp_all
  have range: "fst (crime_reward c) \<le> reward \<and> reward \<le> snd (crime_reward c)"
    using randint_range [OF CRIMES_bounds(4) [OF c]] reward by simp
  have onto: "\<forall>r. fst (crime_reward c) \<le> r \<and> r \<le> snd (crime_reward c) \<longrightarrow>
          (\<exists>k. random_randint (crime_reward c) k = r)"
    using randint_onto by blast
  have fields: "energy ?s = energy user - crime_energy c \<and>
      money ?s = money user + of_int reward \<and> wins ?s = wins user + 1 \<and>
      losses ?s = losses user \<and> experience ?s = experience user + crime_exp c"
    by (simp add: add_exp_def Let_def)
  have outcome: "reward = random_randint (crime_reward c)
      (randbelow (nat (snd (crime_reward c) - fst (crime_reward c) + 1)) k_reward)"
    unfolding reward by (rule randint_outcome)
  have uniform: "\<forall>r. fst (crime_reward c) \<le> r \<and> r \<le> snd (crime_reward c) \<longrightarrow>
      randint_probability (crime_reward c) r =
        1 / of_int (snd (crime_reward c) - fst (crime_reward c) + 1)"
    using randint_uniform by blast
  have outside: "\<forall>r. r < fst (crime_reward c) \<or> snd (crime_reward c) < r \<longrightarrow>
      randint_probability (crime_reward c) r = 0"
    using randint_outside [OF CRIMES_bounds(4) [OF c]] by blast
  have effects: "c \<in> set CRIMES \<and>
     (roll \<le> crime_success c \<longrightarrow>
        fst (crime_reward c) \<le> reward \<and> reward \<le> snd (crime_reward c) \<and>
        snd (crime db uname k_choice roll k_reward) =
          Inr [(''result'', JStr ''SUCCESS''), (''reward'', JInt reward)] \<and>
        (\<exists>user'. get_player uname (fst (crime db uname k_choice roll k_reward)) = Inr user' \<and>
           user' = add_exp (user\<lparr>energy := energy user - crime_energy c,
                                 money := money user + of_int reward,
                                 wins := wins user + 1\<rparr>) (crime_exp c) \<and>
           energy user' = energy user - crime_energy c \<and>
           money user' = money user + of_int reward \<and>
           wins user' = wins user + 1 \<and>
           losses user' = losses user \<and>
           experience user' = experience user + crime_exp c)) \<and>
     (\<not> roll \<le> crime_success c \<longrightarrow>
        snd (crime db uname k_choice roll k_reward) = Inr [(''result'', JStr ''FAILED'')] \<and>
        get_player uname (fst (crime db uname k_choice roll k_reward)) =
          Inr (user\<lparr>energy := energy user - crime_energy c, losses := losses user + 1\<rparr>)) \<and>
     inventory (fst (crime db uname k_choice roll k_reward)) = inventory db \<and>
     (\<forall>r. fst (crime_reward c) \<le> r \<and> r \<le> snd (crime_reward c) \<longrightarrow>
          (\<exists>k. random_randint (crime_reward c) k = r))"
    using c s f succ fail inv range onto fields by simp
  from outcome uniform outside
  have distribution: "reward = random_randint (crime_reward c)
                (randbelow (nat (snd (crime_reward c) - fst (crime_reward c) + 1)) k_reward) \<and>
     (\<forall>r. fst (crime_reward c) \<le> r \<and> r \<le> snd (crime_reward c) \<longrightarrow>
          randint_probability (crime_reward c) r =
            1 / of_int (snd (crime_reward c) - fst (crime_reward c) + 1)) \<and>
     (\<forall>r. r < fst (crime_reward c) \<or> snd (crime_reward c) < r \<longrightarrow>
          randint_probability (crime_reward c) r = 0)"
    by (intro conjI)
  have "(c \<in> set CRIMES \<and> A \<and> B \<and> C \<and> D) \<and> E \<Longrightarrow> c \<in> set CRIMES \<and> A \<and> B \<and> C \<and> D \<and> E"
    for A B C D E by (elim conjE) (intro conjI)
  from this [OF conjI [OF effects distribution]] show ?thesis .
qed

theorem crime_effect_witness:
  "snd (crime sample_db ''al'' 0 (8106479329266893 / 2 ^ 53) 7) =
     Inr [(''result'', JStr ''SUCCESS''), (''reward'', JInt 27)] \<and>
   get_player ''al'' (fst (crime sample_db ''al'' 0 (8106479329266893 / 2 ^ 53) 7)) =
     Inr (sample_player\<lparr>energy := 30, money := 1127, wins := 2, experience := 55\<rparr>) \<and>
   snd (crime sample_db ''al'' 0 (8106479329266894 / 2 ^ 53) 7) =
     Inr [(''result'', JStr ''FAILED'')] \<and>
   get_player ''al'' (fst (crime sample_db ''al'' 0 (8106479329266894 / 2 ^ 53) 7)) =
     Inr (sample_player\<lparr>energy := 30, losses := 1\<rparr>) \<and>
   randint_probability (20, 50) 27 = 1 / 31"
proof -
  have c: "CRIMES ! 0 = random_choice CRIMES 0"
    by (simp add: random_choice_def randbelow_def CRIMES_def)
  have e: "crime_energy (CRIMES ! 0) \<le> energy sample_player"
    by (simp add: CRIMES_def sample_player_def)
  have r: "27 = random_randint (crime_reward (CRIMES ! 0)) 7"
    by (simp add: random_randint_def randbelow_def CRIMES_def)
  show ?thesis
    using crime_effect [OF sample_found c e r, of "8106479329266893 / 2 ^ 53"]
      crime_effect [OF sample_found c e r, of "8106479329266894 / 2 ^ 53"]
    by (simp add: CRIMES_def sample_player_def add_exp_def)
qed

section \<open>The rest action\<close>

text \<open>
  Claim C5. For an existing player, rest answers with the new energy
  \<open>min max_energy (energy + 40)\<close>; the stored player afterwards is the old one with
  only the energy field replaced by that value, and the inventory is unchanged.
\<close>

theorem rest_effect:
  assumes "get_player uname db = Inr user"
  shows "snd (rest db uname) = Inr [(''energy'', JInt (min (max_energy user) (energy user + 40)))] \<and>
     get_player uname (fst (rest db uname)) =
       Inr (user\<lparr>energy := min (max_energy user) (energy user + 40)\<rparr>) \<and>
     inventory (fst (rest db uname)) = inventory db"
proof -
  let ?u = "user\<lparr>energy := min (max_energy user) (energy user + 40)\<rparr>"
  have out: "rest db uname = (commit_player db ?u, Inr [(''energy'', JInt (energy ?u))])"
    using assms by (simp add: rest_def Let_def)
  have "username ?u = uname" using get_player_username [OF assms] by simp
  then have "get_player uname (commit_player db ?u) = Inr ?u"
    using get_player_commit [OF assms, of ?u] by simp
  then show ?thesis using out by simp
qed

theorem rest_effect_witness:
  "snd (rest sample_db ''al'') = Inr [(''energy'', JInt 80)] \<and>
   get_player ''al'' (fst (rest sample_db ''al'')) = Inr (sample_player\<lparr>energy := 80\<rparr>) \<and>
   inventory (fst (rest sample_db ''al'')) = inventory sample_db"
  using rest_effect [OF sample_found] by (simp add: sample_player_def)

section \<open>The shop\<close>

text \<open>
  Claim C7. When the player exists, the item is present in the looked-up catalog and the
  player's money is at least its price, buying succeeds; the stored player is the old one
  with only money decreased by exactly the price; and the inventory is the old rows (equal
  to before up to their equipped flag) followed by exactly one new row, with a new key,
  for that player, with the requested item id and item type, marked equipped.
\<close>

theorem buy_item_effect:
  assumes found: "get_player uname db = Inr player"
    and listed: "(if itype = ''weapon'' then WEAPONS iid else ARMOR iid) = Some it"
    and afford: "of_int (price it) \<le> money player"
  shows "snd (buy_item db uname iid itype) = Inr [(''message'', JStr (''Bought '' @ name it))] \<and>
     get_player uname (fst (buy_item db uname iid itype)) =
       Inr (player\<lparr>money := money player - of_int (price it)\<rparr>) \<and>
     (\<exists>old row. inventory (fst (buy_item db uname iid itype)) = old @ [row] \<and>
        map (\<lambda>r. r\<lparr>equipped := False\<rparr>) old = map (\<lambda>r. r\<lparr>equipped := False\<rparr>) (inventory db) \<and>
        id_inventory row \<notin> set (map id_inventory (inventory db)) \<and>
        player_id row = id_player player \<and> item_id row = iid \<and> item_type row = itype \<and>
        equipped row)"
proof -
  let ?p = "player\<lparr>money := money player - of_int (price it)\<rparr>"
  let ?old = "map (\<lambda>r. if player_id r = id_player player \<and> item_type r = itype
                     then r\<lparr>equipped := False\<rparr> else r) (inventory db)"
  let ?row = "\<lparr>id_inventory = fresh_id (map id_inventory (inventory db)),
             player_id = id_player player, item_type = itype, item_id = iid,
             equipped = True\<rparr>"
  note out = buy_item_success [OF assms]
  have "username ?p = uname" using get_player_username [OF found] by simp
  then have p: "get_player uname (commit_player db ?p) = Inr ?p"
    using get_player_commit [OF found, of ?p] by simp
  have old: "map (\<lambda>r. r\<lparr>equipped := False\<rparr>) ?old = map (\<lambda>r. r\<lparr>equipped := False\<rparr>) (inventory db)"
    by (induction "inventory db") auto
  have new: "id_inventory ?row \<notin> set (map id_inventory (inventory db))"
    using fresh_id_notin [of "map id_inventory (inventory db)"] by simp
  have "inventory (fst (buy_item db uname iid itype)) = ?old @ [?row]"
    using out by simp
  with old new have "\<exists>old row. inventory (fst (buy_item db uname iid itype)) = old @ [row] \<and>
        map (\<lambda>r. r\<lparr>equipped := False\<rparr>) old = map (\<lambda>r. r\<lparr>equipped := False\<rparr>) (inventory db) \<and>
        id_inventory row \<notin> set (map id_inventory (inventory db)) \<and>
        player_id row = id_player player \<and> item_id row = iid \<and> item_type row = itype \<and>
        equipped row"
    by (intro exI [of _ ?old] exI [of _ ?row]) simp
  then show ?thesis using out p by simp
qed

theorem buy_item_effect_witness:
  "snd (buy_item sample_db ''al'' ''leather_jacket'' ''armor'') =
     Inr [(''message'', JStr ''Bought Leather Jacket'')] \<and>
   get_player ''al'' (fst (buy_item sample_db ''al'' ''leather_jacket'' ''armor'')) =
     Inr (sample_player\<lparr>money := 800\<rparr>) \<and>
   (\<exists>old row. inventory (fst (buy_item sample_db ''al'' ''leather_jacket'' ''armor'')) = old @ [row] \<and>
      map (\<lambda>r. r\<lparr>equipped := False\<rparr>) old = map (\<lambda>r. r\<lparr>equipped := False\<rparr>) (inventory sample_db) \<and>
      id_inventory row \<notin> set (map id_inventory (inventory sample_db)) \<and>
      player_id row = 1 \<and> item_id row = ''leather_jacket'' \<and> item_type row = ''armor'' \<and>
      equipped row)"
proof -
  have afford: "of_int (price \<lparr>name = ''Leather Jacket'', damage = None, defense = Some 5,
      price = 300, level_req = 1\<rparr>) \<le> money sample_player"
    by (simp add: sample_player_def)
  show ?thesis
    using buy_item_effect [OF sample_found sample_jacket afford]
    by (simp add: sample_player_def)
qed

text \<open>
  Claim C9. The item is looked up in the armor catalog for every item type other than
  \<open>weapon\<close>, and in the weapon catalog for \<open>weapon\<close>: with any other type
  and an affordable armor id the purchase succeeds and the new row is equipped and carries
  that item type; an id missing from the looked-up catalog is not found, whatever the
  other catalog holds.
\<close>

theorem buy_item_catalog_choice:
  assumes found: "get_player uname db = Inr player"
  shows "(itype \<noteq> ''weapon'' \<and> ARMOR iid = Some it \<and> of_int (price it) \<le> money player \<longrightarrow>
        snd (buy_item db uname iid itype) = Inr [(''message'', JStr (''Bought '' @ name it))] \<and>
        last (inventory (fst (buy_item db uname iid itype))) =
          \<lparr>id_inventory = fresh_id (map id_inventory (inventory db)),
           player_id = id_player player, item_type = itype, item_id = iid, equipped = True\<rparr>) \<and>
     (itype \<noteq> ''weapon'' \<and> ARMOR iid = None \<longrightarrow>
        buy_item db uname iid itype = (db, Inl (HTTPException 404 ''Item not found''))) \<and>
     (itype = ''weapon'' \<and> WEAPONS iid = Some it \<and> of_int (price it) \<le> money player \<longrightarrow>
        snd (buy_item db uname iid itype) = Inr [(''message'', JStr (''Bought '' @ name it))]) \<and>
     (itype = ''weapon'' \<and> WEAPONS iid = None \<longrightarrow>
        buy_item db uname iid itype = (db, Inl (HTTPException 404 ''Item not found'')))"
proof -
  have armor: "snd (buy_item db uname iid itype) = Inr [(''message'', JStr (''Bought '' @ name it))] \<and>
        last (inventory (fst (buy_item db uname iid itype))) =
          \<lparr>id_inventory = fresh_id (map id_inventory (inventory db)),
           player_id = id_player player, item_type = itype, item_id = iid, equipped = True\<rparr>"
    if "itype \<noteq> ''weapon''" "ARMOR iid = Some it" "of_int (price it) \<le> money player"
    using buy_item_success [OF found, of itype iid it] that by simp
  have weapon: "snd (buy_item db uname iid itype) = Inr [(''message'', JStr (''Bought '' @ name it))]"
    if "itype = ''weapon''" "WEAPONS iid = Some it" "of_int (price it) \<le> money player"
    using buy_item_success [OF found, of itype iid it] that by simp
  have none: "buy_item db uname iid itype = (db, Inl (HTTPException 404 ''Item not found''))"
    if "(if itype = ''weapon'' then WEAPONS iid else ARMOR iid) = None"
    using found that by (simp add: buy_item_def)
  show ?thesis
  proof (intro conjI impI)
    assume "itype \<noteq> ''weapon'' \<and> ARMOR iid = None"
    then show "buy_item db uname iid itype = (db, Inl (HTTPException 404 ''Item not found''))"
      by (intro none) simp
  next
    assume "itype = ''weapon'' \<and> WEAPONS iid = None"
    then show "buy_item db uname iid itype = (db, Inl (HTTPException 404 ''Item not found''))"
      by (intro none) simp
  qed (use armor weapon in blast)+
qed

theorem buy_item_catalog_choice_witness:
  "snd (buy_item sample_db ''al'' ''leather_jacket'' ''banana'') =
     Inr [(''message'', JStr ''Bought Leather Jacket'')] \<and>
   last (inventory (fst (buy_item sample_db ''al'' ''leather_jacket'' ''banana''))) =
     \<lparr>id_inventory = 2, player_id = 1, item_type = ''banana'', item_id = ''leather_jacket'',
      equipped = True\<rparr> \<and>
   buy_item sample_db ''al'' ''pistol'' ''armor'' =
     (sample_db, Inl (HTTPException 404 ''Item not found'')) \<and>
   buy_item sample_db ''al'' ''leather_jacket'' ''weapon'' =
     (sample_db, Inl (HTTPException 404 ''Item not found''))"
  using buy_item_catalog_choice [OF sample_found, of "''banana''" "''leather_jacket''"
      "\<lparr>name = ''Leather Jacket'', damage = None, defense = Some 5, price = 300, level_req = 1\<rparr>"]
    buy_item_catalog_choice [OF sample_found, of "''armor''" "''pistol''"]
    buy_item_catalog_choice [OF sample_found, of "''weapon''" "''leather_jacket''"]
  by (simp add: ARMOR_def WEAPONS_def sample_player_def sample_db_def fresh_id_def)

section \<open>Errors leave the database unchanged\<close>

text \<open>
  Claim C4. Whenever a handler answers with an HTTP error, the database is the one it
  started from. The errors are: 404 for an unknown player (login, crime, rest, buy); 400
  "Username taken" for registering an existing name; 400 "Invalid credentials" for a
  password that does not verify; 400 "Not enough energy"; 404 "Item not found"; and
  400 "Not enough money". The first statement covers every answer that is not a success,
  also the status 500 for an exception of passlib that the handler does not catch.
\<close>

theorem errors_leave_state_unchanged:
  "(snd (handle ctx db req) = Inl e \<longrightarrow> fst (handle ctx db req) = db) \<and>
   (get_player uname db = Inl e \<longrightarrow>
      e = HTTPException 404 ''Player not found'' \<and>
      login ctx db uname pw = (db, Inl e) \<and>
      crime db uname k_choice roll k_reward = (db, Inl e) \<and>
      rest db uname = (db, Inl e) \<and>
      buy_item db uname iid itype = (db, Inl e)) \<and>
   (get_player uname db = Inr user \<longrightarrow>
      register ctx db uname pw k_salt now = (db, Inl (HTTPException 400 ''Username taken'')) \<and>
      (verify_password ctx pw (password user) = Inr False \<longrightarrow>
         login ctx db uname pw = (db, Inl (HTTPException 400 ''Invalid credentials''))) \<and>
      (energy user < crime_energy (random_choice CRIMES k_choice) \<longrightarrow>
         crime db uname k_choice roll k_reward = (db, Inl (HTTPException 400 ''Not enough energy''))) \<and>
      ((if itype = ''weapon'' then WEAPONS iid else ARMOR iid) = None \<longrightarrow>
         buy_item db uname iid itype = (db, Inl (HTTPException 404 ''Item not found''))) \<and>
      (\<forall>it. (if itype = ''weapon'' then WEAPONS iid else ARMOR iid) = Some it \<and>
            money user < of_int (price it) \<longrightarrow>
         buy_item db uname iid itype = (db, Inl (HTTPException 400 ''Not enough money''))))"
proof -
  have general: "fst (handle ctx db req) = db" if "snd (handle ctx db req) = Inl e"
  proof (cases req)
    case (Register u p s n)
    then show ?thesis using that
      by (auto simp: register_def Let_def split: if_splits sum.splits)
  next
    case (Login u p)
    then show ?thesis by simp
  next
    case (Crime u k1 r k2)
    then show ?thesis using that
      by (auto simp: crime_def Let_def split: sum.splits if_splits)
  next
    case (Rest u)
    then show ?thesis using that by (auto simp: rest_def Let_def split: sum.splits)
  next
    case (Buy u i t)
    then show ?thesis using that
      by (auto simp: buy_item_def Let_def split: sum.splits option.splits if_splits)
  qed
  have missing: "e = HTTPException 404 ''Player not found'' \<and>
      login ctx db uname pw = (db, Inl e) \<and>
      crime db uname k_choice roll k_reward = (db, Inl e) \<and>
      rest db uname = (db, Inl e) \<and>
      buy_item db uname iid itype = (db, Inl e)" if "get_player uname db = Inl e"
  proof -
    have "e = HTTPException 404 ''Player not found''"
      using that by (simp add: get_player_def split: option.splits)
    then show ?thesis using that by (simp add: login_def crime_def rest_def buy_item_def)
  qed
  have taken: "register ctx db uname pw k_salt now = (db, Inl (HTTPException 400 ''Username taken''))"
    if "get_player uname db = Inr user"
    using that by (simp add: register_def get_player_def split: option.splits)
  have present: "(verify_password ctx pw (password user) = Inr False \<longrightarrow>
         login ctx db uname pw = (db, Inl (HTTPException 400 ''Invalid credentials''))) \<and>
      (energy user < crime_energy (random_choice CRIMES k_choice) \<longrightarrow>
         crime db uname k_choice roll k_reward = (db, Inl (HTTPException 400 ''Not enough energy''))) \<and>
      ((if itype = ''weapon'' then WEAPONS iid else ARMOR iid) = None \<longrightarrow>
         buy_item db uname iid itype = (db, Inl (HTTPException 404 ''Item not found''))) \<and>
      (\<forall>it. (if itype = ''weapon'' then WEAPONS iid else ARMOR iid) = Some it \<and>
            money user < of_int (price it) \<longrightarrow>
         buy_item db uname iid itype = (db, Inl (HTTPException 400 ''Not enough money'')))"
    if "get_player uname db = Inr user"
    using that by (simp add: login_def crime_def buy_item_def Let_def)
  show ?thesis using general missing taken present by blast
qed

theorem errors_leave_state_unchanged_witness:
  "snd (handle reversing_context sample_db (Crime ''al'' 1 0 0)) =
     Inl (HTTPException 400 ''Not enough energy'') \<and>
   fst (handle reversing_context sample_db (Crime ''al'' 1 0 0)) = sample_db \<and>
   get_player ''bob'' sample_db = Inl (HTTPException 404 ''Player not found'') \<and>
   rest sample_db ''bob'' = (sample_db, Inl (HTTPException 404 ''Player not found'')) \<and>
   register reversing_context sample_db ''al'' ''bad'' 7 3 =
     (sample_db, Inl (HTTPException 400 ''Username taken'')) \<and>
   login reversing_context sample_db ''al'' ''bad'' =
     (sample_db, Inl (HTTPException 400 ''Invalid credentials'')) \<and>
   buy_item sample_db ''al'' ''pistol'' ''weapon'' =
     (sample_db, Inl (HTTPException 400 ''Not enough money''))"
proof -
  have err: "snd (handle reversing_context sample_db (Crime ''al'' 1 0 0)) =
     Inl (HTTPException 400 ''Not enough energy'')"
    by (simp add: eval_defs)
  have missing: "get_player ''bob'' sample_db = Inl (HTTPException 404 ''Player not found'')"
    by (simp add: get_player_def sample_db_def sample_player_def)
  have bad: "verify_password reversing_context ''bad'' (password sample_player) = Inr False"
    by (simp add: verify_password_def validate_secret_def reversing_context_def sample_player_def)
  have pistol: "(if ''weapon'' = ''weapon'' then WEAPONS ''pistol'' else ARMOR ''pistol'') =
      Some \<lparr>name = ''Pistol'', damage = Some 25, defense = None, price = 2000, level_req = 5\<rparr> \<and>
      money sample_player < of_int (price \<lparr>name = ''Pistol'', damage = Some 25, defense = None,
        price = 2000, level_req = 5\<rparr>)"
    by (simp add: WEAPONS_def sample_player_def)
  show ?thesis
    using errors_leave_state_unchanged [where ctx = reversing_context and db = sample_db
        and req = "Crime ''al'' 1 0 0" and e = "HTTPException 400 ''Not enough energy''"
        and uname = "''al''" and user = sample_player and pw = "''bad''"
        and k_salt = 7 and now = 3 and iid = "''pistol''" and itype = "''weapon''"
        and k_choice = 1 and roll = 0 and k_reward = 0]
      errors_leave_state_unchanged [where ctx = reversing_context and db = sample_db
        and req = "Rest ''bob''" and e = "HTTPException 404 ''Player not found''"
        and uname = "''bob''" and user = sample_player and pw = "''bad''"
        and k_salt = 7 and now = 3 and iid = "''pistol''" and itype = "''weapon''"
        and k_choice = 1 and roll = 0 and k_reward = 0]
      err missing bad pistol sample_found
    by simp
qed

section \<open>Accounts\<close>




section \<open>Registration defaults\<close>

text \<open>
  Claim C10. In every state reachable from the empty database the foreign key of the
  inventory holds. Registration succeeds only for a free username and a password that
  passlib accepts. When the foreign key holds, the username is free and the password is
  accepted, registration succeeds and the stored player has money 100, energy 100,
  max_energy 100, level 1, experience 0, strength, agility, intelligence and charisma 1,
  wins 0 and losses 0; the player's inventory is exactly one row: an equipped weapon with
  item id \<open>brass_knuckles\<close>.
\<close>

theorem register_defaults:
  "refs_ok (run ctx empty_db reqs) \<and>
   (snd (register ctx db uname pw k_salt now) = Inr resp \<longrightarrow>
      get_player uname db = Inl (HTTPException 404 ''Player not found'') \<and>
      validate_secret pw = None) \<and>
   (refs_ok db \<and> get_player uname db = Inl e \<and> validate_secret pw = None \<longrightarrow>
      snd (register ctx db uname pw k_salt now) = Inr [(''message'', JStr ''Registered'')] \<and>
      (\<exists>user row. get_player uname (fst (register ctx db uname pw k_salt now)) = Inr user \<and>
         money user = 100 \<and> energy user = 100 \<and> max_energy user = 100 \<and>
         level user = 1 \<and> experience user = 0 \<and>
         strength user = 1 \<and> agility user = 1 \<and> intelligence user = 1 \<and> charisma user = 1 \<and>
         wins user = 0 \<and> losses user = 0 \<and>
         inventory_of (fst (register ctx db uname pw k_salt now)) (id_player user) = [row] \<and>
         item_type row = ''weapon'' \<and> item_id row = ''brass_knuckles'' \<and> equipped row))"
proof (intro conjI impI)
  show "refs_ok (run ctx empty_db reqs)" by (rule run_refs_ok)
next
  assume ok: "snd (register ctx db uname pw k_salt now) = Inr resp"
  from register_Inr(1) [OF ok]
  show "get_player uname db = Inl (HTTPException 404 ''Player not found'')"
    by (simp add: get_player_def)
  from register_Inr(2) [OF ok] show "validate_secret pw = None"
    by (simp add: hash_password_accepts)
next
  assume asm: "refs_ok db \<and> get_player uname db = Inl e \<and> validate_secret pw = None"
  let ?hashed = "''$2b$12$'' @ generate_salt k_salt @ digest ctx (generate_salt k_salt) pw"
  let ?new = "\<lparr>id_player = fresh_id (map id_player (players db)),
               username = uname, password = ?hashed,
               money = 100, energy = 100, max_energy = 100, level = 1, experience = 0,
               strength = 1, agility = 1, intelligence = 1, charisma = 1,
               wins = 0, losses = 0, created_at = now\<rparr>"
  let ?row = "\<lparr>id_inventory = fresh_id (map id_inventory (inventory db)),
               player_id = fresh_id (map id_player (players db)), item_type = ''weapon'',
               item_id = ''brass_knuckles'', equipped = True\<rparr>"
  let ?db = "fst (register ctx db uname pw k_salt now)"
  from asm have free: "get_player uname db = Inl e" and acc: "validate_secret pw = None"
    by simp_all
  note out = register_free(1) [OF free hash_password_Inr [OF acc], where now = now]
  note got = register_free(2) [OF free hash_password_Inr [OF acc], where now = now]
  show "snd (register ctx db uname pw k_salt now) = Inr [(''message'', JStr ''Registered'')]"
    by (simp add: out)
  have "filter (\<lambda>r. player_id r = fresh_id (map id_player (players db)) \<and> True) (inventory db) = []"
    using asm by (intro refs_ok_fresh) simp
  then have rows: "inventory_of ?db (fresh_id (map id_player (players db))) = [?row]"
    by (simp add: out inventory_of_def)
  show "\<exists>user row. get_player uname ?db = Inr user \<and>
         money user = 100 \<and> energy user = 100 \<and> max_energy user = 100 \<and>
         level user = 1 \<and> experience user = 0 \<and>
         strength user = 1 \<and> agility user = 1 \<and> intelligence user = 1 \<and> charisma user = 1 \<and>
         wins user = 0 \<and> losses user = 0 \<and>
         inventory_of ?db (id_player user) = [row] \<and>
         item_type row = ''weapon'' \<and> item_id row = ''brass_knuckles'' \<and> equipped row"
    by (rule exI [of _ ?new], rule exI [of _ ?row]) (simp add: got rows)
qed

theorem register_defaults_witness:
  "refs_ok sample_db \<and>
   get_player ''bob'' sample_db = Inl (HTTPException 404 ''Player not found'') \<and>
   validate_secret ''hunter2'' = None \<and>
   (\<exists>user row.
      get_player ''bob'' (fst (register reversing_context sample_db ''bob'' ''hunter2'' 11 5)) = Inr user \<and>
      money user = 100 \<and> energy user = 100 \<and> max_energy user = 100 \<and>
      level user = 1 \<and> experience user = 0 \<and>
      strength user = 1 \<and> agility user = 1 \<and> intelligence user = 1 \<and> charisma user = 1 \<and>
      wins user = 0 \<and> losses user = 0 \<and>
      inventory_of (fst (register reversing_context sample_db ''bob'' ''hunter2'' 11 5))
        (id_player user) = [row] \<and>
      item_type row = ''weapon'' \<and> item_id row = ''brass_knuckles'' \<and> equipped row)"
proof -
  have refs: "refs_ok sample_db"
    by (simp add: refs_ok_def sample_db_def sample_player_def)
  have free: "get_player ''bob'' sample_db = Inl (HTTPException 404 ''Player not found'')"
    by (simp add: get_player_def sample_db_def sample_player_def)
  have acc: "validate_secret ''hunter2'' = None"
    by (simp add: validate_secret_def)
  show ?thesis
    using register_defaults [where db = sample_db and uname = "''bob''"
        and e = "HTTPException 404 ''Player not found''" and ctx = reversing_context
        and pw = "''hunter2''" and k_salt = 11 and now = 5 and reqs = "[]"] refs free acc
    by simp
qed

section \<open>One equipped item per slot\<close>

text \<open>
  Claim C2. In every state reachable from the empty database, each player has at most
  one equipped inventory row of each item type. Every buy preserves this property of a
  database; a successful buy leaves, as the only equipped row of the buyer in the bought
  item's type, the new row: the buyer's earlier rows of that type are all unequipped. A
  freshly registered player (the username was free and passlib accepted the password) has
  one equipped weapon row and no other equipped row.
\<close>

theorem one_equipped_per_slot:
  "length (equipped_rows (run ctx empty_db reqs) pid t) \<le> 1 \<and>
   ((\<forall>pid t. length (equipped_rows db pid t) \<le> 1) \<longrightarrow>
      (\<forall>pid t. length (equipped_rows (fst (buy_item db uname iid itype)) pid t) \<le> 1)) \<and>
   (get_player uname db = Inr player \<and> snd (buy_item db uname iid itype) = Inr resp \<longrightarrow>
      equipped_rows (fst (buy_item db uname iid itype)) (id_player player) itype =
        [last (inventory (fst (buy_item db uname iid itype)))] \<and>
      (\<forall>r \<in> set (butlast (inventory (fst (buy_item db uname iid itype)))).
         player_id r = id_player player \<and> item_type r = itype \<longrightarrow> \<not> equipped r) \<and>
      length (inventory (fst (buy_item db uname iid itype))) = length (inventory db) + 1) \<and>
   (refs_ok db \<and> get_player uname db = Inl e \<and> validate_secret pw = None \<longrightarrow>
      (\<exists>user. get_player uname (fst (register ctx db uname pw k_salt now)) = Inr user \<and>
         length (equipped_rows (fst (register ctx db uname pw k_salt now)) (id_player user) ''weapon'') = 1 \<and>
         (t \<noteq> ''weapon'' \<longrightarrow>
            equipped_rows (fst (register ctx db uname pw k_salt now)) (id_player user) t = [])))"
proof (intro conjI impI)
  show "length (equipped_rows (run ctx empty_db reqs) pid t) \<le> 1"
    using run_slots [of ctx reqs] by blast
next
  assume "\<forall>pid t. length (equipped_rows db pid t) \<le> 1"
  then show "\<forall>pid t. length (equipped_rows (fst (buy_item db uname iid itype)) pid t) \<le> 1"
    using buy_item_slots by blast
next
  assume "get_player uname db = Inr player \<and> snd (buy_item db uname iid itype) = Inr resp"
  then have found: "get_player uname db = Inr player"
    and ok: "snd (buy_item db uname iid itype) = Inr resp" by simp_all
  show "equipped_rows (fst (buy_item db uname iid itype)) (id_player player) itype =
        [last (inventory (fst (buy_item db uname iid itype)))]"
    by (rule buy_item_replaces_slot(1) [OF found ok])
  show "\<forall>r \<in> set (butlast (inventory (fst (buy_item db uname iid itype)))).
         player_id r = id_player player \<and> item_type r = itype \<longrightarrow> \<not> equipped r"
    by (rule buy_item_replaces_slot(2) [OF found ok])
  show "length (inventory (fst (buy_item db uname iid itype))) = length (inventory db) + 1"
    by (rule buy_item_replaces_slot(3) [OF found ok])
next
  assume "refs_ok db \<and> get_player uname db = Inl e \<and> validate_secret pw = None"
  then have refs: "refs_ok db" and free: "get_player uname db = Inl e"
    and acc: "validate_secret pw = None" by simp_all
  show "\<exists>user. get_player uname (fst (register ctx db uname pw k_salt now)) = Inr user \<and>
         length (equipped_rows (fst (register ctx db uname pw k_salt now)) (id_player user) ''weapon'') = 1 \<and>
         (t \<noteq> ''weapon'' \<longrightarrow> equipped_rows (fst (register ctx db uname pw k_salt now)) (id_player user) t = [])"
    by (rule register_fresh_slots [OF refs free acc])
qed

theorem one_equipped_per_slot_witness:
  "length (equipped_rows (run reversing_context empty_db
      [Register ''al'' ''pw'' 0 0, Crime ''al'' 1 0 500,
       Buy ''al'' ''brass_knuckles'' ''weapon'']) 1 ''weapon'') \<le> 1 \<and>
   (\<forall>pid t. length (equipped_rows sample_db pid t) \<le> 1) \<and>
   (\<forall>pid t. length (equipped_rows (fst (buy_item sample_db ''al'' ''brass_knuckles'' ''weapon'')) pid t) \<le> 1) \<and>
   snd (buy_item sample_db ''al'' ''brass_knuckles'' ''weapon'') =
     Inr [(''message'', JStr ''Bought Brass Knuckles'')] \<and>
   equipped_rows (fst (buy_item sample_db ''al'' ''brass_knuckles'' ''weapon'')) 1 ''weapon'' =
     [last (inventory (fst (buy_item sample_db ''al'' ''brass_knuckles'' ''weapon'')))] \<and>
   length (inventory (fst (buy_item sample_db ''al'' ''brass_knuckles'' ''weapon''))) = 2"
proof -
  have slots: "\<forall>pid t. length (equipped_rows sample_db pid t) \<le> 1"
    by (simp add: equipped_rows_def sample_db_def)
  have ok: "snd (buy_item sample_db ''al'' ''brass_knuckles'' ''weapon'') =
     Inr [(''message'', JStr ''Bought Brass Knuckles'')]"
    by (simp add: buy_item_def sample_found WEAPONS_def Let_def sample_player_def)
  have refs: "refs_ok sample_db"
    by (simp add: refs_ok_def sample_db_def sample_player_def)
  show ?thesis
    using one_equipped_per_slot [where ctx = reversing_context and db = sample_db
        and reqs = "[Register ''al'' ''pw'' 0 0, Crime ''al'' 1 0 500,
                     Buy ''al'' ''brass_knuckles'' ''weapon'']"
        and pid = 1 and t = "''weapon''" and uname = "''al''" and iid = "''brass_knuckles''"
        and itype = "''weapon''" and player = sample_player
        and resp = "[(''message'', JStr ''Bought Brass Knuckles'')]"]
      slots ok sample_found
    by (simp add: sample_player_def sample_db_def)
qed

end
